theory Spec2Isabelle
  imports Complex_Main
begin

section \<open>Data model of \<^verbatim>\<open>datacube.py\<close>\<close>

text \<open>
  The module wraps one spectral-line cube (a 3-D array with FITS metadata) and delegates
  file reading, coordinate algebra and unit conversion to numpy and astropy. The classes
  \<^verbatim>\<open>Datacube\<close> and \<^verbatim>\<open>DatacubeMoments\<close> are embedded as functions on an explicit
  object state; every \<^verbatim>\<open>raise\<close> and every failing attribute or index access is a value
  of the type \<open>error\<close>.

  Exceptions. \<open>AttributeError\<close> carries the message of an explicit \<^verbatim>\<open>raise\<close>, or the name
  of the attribute whose lookup failed.
\<close>

datatype error = AttributeError string | IndexError | TypeError | ValueError

text \<open>
  Arrays. A numpy array of three axes (spectral, then two spatial ones) is its shape,
  its nested elements and its element type tag; a two-axis array (a spatial plane) is its
  shape and rows. numpy arrays are rectangular, which \<open>wf3\<close> and \<open>wf2\<close> state.
\<close>

type_synonym dtype = string

record 'a ndarray =
  shape :: "nat \<times> nat \<times> nat"
  elems :: "'a list list list"
  dtype :: dtype

record 'a ndarray2 =
  shape2 :: "nat \<times> nat"
  elems2 :: "'a list list"

definition wf3 :: "'a ndarray \<Rightarrow> bool" where
  "wf3 a = (case shape a of (n, h, w) \<Rightarrow>
     length (elems a) = n \<and>
     list_all (\<lambda>p. length p = h \<and> list_all (\<lambda>r. length r = w) p) (elems a))"

definition wf2 :: "'a ndarray2 \<Rightarrow> bool" where
  "wf2 a = (case shape2 a of (h, w) \<Rightarrow>
     length (elems2 a) = h \<and> list_all (\<lambda>r. length r = w) (elems2 a))"

text \<open>
  The mask argument of \<^verbatim>\<open>moment\<close> is an array of two or three axes (Python's \<^verbatim>\<open>None\<close> is
  \<open>None\<close> of the option type around it).
\<close>

datatype 'a mask = Mask2 "'a ndarray2" | Mask3 "'a ndarray"

text \<open>
  FITS metadata: a header is a map from keywords to values; an extension (HDU) is its
  image flag, its array and its header.
\<close>

type_synonym header = "string \<rightharpoonup> string"

record 'a HDU =
  is_image :: bool
  hdu_data :: "'a ndarray"
  hdu_header :: header

text \<open>
  The part of astropy's coordinate descriptor (\<^verbatim>\<open>wcs.wcs\<close>) the module reads: the index
  of the spectral axis, the axis types, the axis units and the rest frequency. Spectral
  coordinates (frequencies, velocities) are finite floats; the module only compares them,
  and their order is that of the reals they denote, so they are reals here.
\<close>

record wcsprm =
  spec :: int
  ctype :: "string list"
  cunit :: "string list"
  restfrq :: real

datatype equivalency = doppler_radio real | doppler_optical real | no_equivalency

text \<open>
  The external libraries are parameters of the model. For numpy: the arithmetic of the
  cube's element type (\<^verbatim>\<open>*\<close>, \<^verbatim>\<open>+\<close>, the constants \<^verbatim>\<open>0.\<close> and \<^verbatim>\<open>1.\<close>, \<^verbatim>\<open>isnan\<close>) and the
  conversion of one element by \<^verbatim>\<open>astype\<close>. For astropy: \<^verbatim>\<open>fits.open\<close> (the extensions of
  the file at a path), \<^verbatim>\<open>WCS(header)\<close>, the pixel-to-world map of the spectral sub-system
  on a list of channel numbers, and the two unit conversions the module asks for
  (\<^verbatim>\<open>.to(u.Hz, eq)\<close> from a quantity in a named unit, \<^verbatim>\<open>.to(u.km / u.s, eq)\<close> from
  frequencies in Hz). These calls are taken to return.
\<close>

record 'a lib =
  np_mul :: "'a \<Rightarrow> 'a \<Rightarrow> 'a"
  np_add :: "'a \<Rightarrow> 'a \<Rightarrow> 'a"
  np_zero :: 'a
  np_one :: 'a
  np_isnan :: "'a \<Rightarrow> bool"
  np_astype :: "dtype \<Rightarrow> 'a \<Rightarrow> 'a"
  fits_open :: "string \<Rightarrow> 'a HDU list"
  WCS :: "header \<Rightarrow> wcsprm"
  wcs_pix2world :: "wcsprm \<Rightarrow> nat list \<Rightarrow> real list"
  to_Hz :: "string \<Rightarrow> equivalency \<Rightarrow> real list \<Rightarrow> real list"
  to_km_s :: "equivalency \<Rightarrow> real list \<Rightarrow> real list"

text \<open>
  The object state: the private attributes of \<^verbatim>\<open>Datacube\<close> (\<^verbatim>\<open>_wcs\<close>, \<^verbatim>\<open>_hdu\<close>, ...),
  each \<open>None\<close> until it is set.
\<close>

record 'a Datacube =
  p_wcs :: "wcsprm option"
  p_hdu :: "'a HDU option"
  p_dtype :: dtype
  p_axis_units :: "string list option"
  p_frequencies :: "real list option"
  p_radio_velocities :: "real list option"
  p_optical_velocities :: "real list option"

section \<open>Python and numpy primitives\<close>

text \<open>
  A call of a property or method is a function from the object state to a result or an error, and the state
  after the call. An exception keeps the mutations made before it was raised.
\<close>

type_synonym ('s, 'r) call = "'s \<Rightarrow> (error + 'r) \<times> 's"

definition ret :: "'r \<Rightarrow> ('s, 'r) call" where
  "ret r s = (Inr r, s)"

definition raise :: "error \<Rightarrow> ('s, 'r) call" where
  "raise e s = (Inl e, s)"

definition lift :: "error + 'r \<Rightarrow> ('s, 'r) call" where
  "lift x s = (x, s)"

definition then_do :: "('s, 'r) call \<Rightarrow> ('r \<Rightarrow> ('s, 'q) call) \<Rightarrow> ('s, 'q) call" where
  "then_do m f s = (case m s of (Inl e, s') \<Rightarrow> (Inl e, s') | (Inr r, s') \<Rightarrow> f r s')"

text \<open>Python indexing \<^verbatim>\<open>xs[i]\<close>: a negative index counts from the end.\<close>

definition py_index :: "'b list \<Rightarrow> int \<Rightarrow> error + 'b" where
  "py_index xs i =
     (if 0 \<le> i \<and> i < int (length xs) then Inr (xs ! nat i)
      else if i < 0 \<and> - int (length xs) \<le> i then Inr (xs ! nat (int (length xs) + i))
      else Inl IndexError)"

text \<open>\<^verbatim>\<open>needle in hay\<close> on strings: \<open>needle\<close> occurs as a contiguous part of \<open>hay\<close>.\<close>

fun str_in :: "string \<Rightarrow> string \<Rightarrow> bool" where
  "str_in needle [] = (needle = [])"
| "str_in needle (c # cs) = (take (length needle) (c # cs) = needle \<or> str_in needle cs)"

text \<open>
  \<^verbatim>\<open>slice(start, stop)\<close> applied to a sequence of length \<open>n\<close>: a negative bound counts
  from the end, and both bounds are clipped to \<open>0..n\<close>.
\<close>

datatype pyslice = Slice "int option" "int option"

definition norm_index :: "nat \<Rightarrow> int \<Rightarrow> nat" where
  "norm_index n i = (if i < 0 then nat (max 0 (i + int n)) else min (nat i) n)"

definition slice_bounds :: "pyslice \<Rightarrow> nat \<Rightarrow> nat \<times> nat" where
  "slice_bounds sl n = (case sl of Slice lo hi \<Rightarrow>
     ((case lo of None \<Rightarrow> 0 | Some i \<Rightarrow> norm_index n i),
      (case hi of None \<Rightarrow> n | Some i \<Rightarrow> norm_index n i)))"

definition getslice :: "pyslice \<Rightarrow> 'b list \<Rightarrow> 'b list" where
  "getslice sl xs = (case slice_bounds sl (length xs) of (a, b) \<Rightarrow> take (b - a) (drop a xs))"

text \<open>\<^verbatim>\<open>slice(*args)\<close>: no argument is a \<^verbatim>\<open>TypeError\<close>, one argument is the stop bound.\<close>

fun slice_of_args :: "int list \<Rightarrow> error + pyslice" where
  "slice_of_args [] = Inl TypeError"
| "slice_of_args [b] = Inr (Slice None (Some b))"
| "slice_of_args (a # b # _) = Inr (Slice (Some a) (Some b))"

text \<open>\<^verbatim>\<open>a[sl]\<close> on an array: the slice selects along the first (spectral) axis.\<close>

definition slice3 :: "pyslice \<Rightarrow> 'a ndarray \<Rightarrow> 'a ndarray" where
  "slice3 sl a = (case shape a of (n, h, w) \<Rightarrow>
     a\<lparr>shape := (length (getslice sl (elems a)), h, w), elems := getslice sl (elems a)\<rparr>)"

text \<open>\<^verbatim>\<open>a.astype(d)\<close>: every element converted, the type tag set.\<close>

definition astype :: "'a lib \<Rightarrow> dtype \<Rightarrow> 'a ndarray \<Rightarrow> 'a ndarray" where
  "astype L d a = a\<lparr>elems := map (map (map (np_astype L d))) (elems a), dtype := d\<rparr>"

text \<open>
  Broadcasting. Two axis lengths are compatible when they are equal or one of them is 1;
  an axis of length 1 is repeated. \<^verbatim>\<open>a * b\<close> on two three-axis arrays raises
  \<^verbatim>\<open>ValueError\<close> when an axis is incompatible. A two-axis operand counts as one plane
  (numpy prepends an axis of length 1), which is also what \<^verbatim>\<open>mask[None]\<close> makes of it.
\<close>

definition bdim :: "nat \<Rightarrow> nat \<Rightarrow> nat option" where
  "bdim a b = (if a = b then Some a else if a = 1 then Some b else if b = 1 then Some a else None)"

definition bcast :: "nat \<Rightarrow> 'b list \<Rightarrow> 'b list" where
  "bcast n xs = (if length xs = n then xs else replicate n (hd xs))"

definition bcast3 :: "nat \<times> nat \<times> nat \<Rightarrow> 'a list list list \<Rightarrow> 'a list list list" where
  "bcast3 sh xs = (case sh of (n, h, w) \<Rightarrow> bcast n (map (\<lambda>p. bcast h (map (bcast w) p)) xs))"

definition mul3 :: "'a lib \<Rightarrow> 'a ndarray \<Rightarrow> 'a ndarray \<Rightarrow> error + 'a ndarray" where
  "mul3 L a b = (case (shape a, shape b) of ((n, h, w), (n', h', w')) \<Rightarrow>
     (case (bdim n n', bdim h h', bdim w w') of
        (Some N, Some H, Some W) \<Rightarrow>
          Inr (a\<lparr>shape := (N, H, W),
                 elems := map2 (map2 (map2 (np_mul L)))
                            (bcast3 (N, H, W) (elems a)) (bcast3 (N, H, W) (elems b))\<rparr>)
      | _ \<Rightarrow> Inl ValueError))"

definition newaxis :: "'a ndarray2 \<Rightarrow> 'a ndarray" where
  "newaxis m = (case shape2 m of (h, w) \<Rightarrow>
     \<lparr>shape = (1, h, w), elems = [elems2 m], dtype = ''bool''\<rparr>)"

text \<open>
  The right operand of \<^verbatim>\<open>s_data * mask\<close>: the Python float \<^verbatim>\<open>1.\<close>, or the mask array
  as the branches of \<^verbatim>\<open>moment\<close> left it.
\<close>

datatype 'a operand = Scalar 'a | Array2 "'a ndarray2" | Array3 "'a ndarray"

definition multiply :: "'a lib \<Rightarrow> 'a ndarray \<Rightarrow> 'a operand \<Rightarrow> error + 'a ndarray" where
  "multiply L a m = (case m of
       Scalar c \<Rightarrow> Inr (a\<lparr>elems := map (map (map (\<lambda>x. np_mul L x c))) (elems a)\<rparr>)
     | Array2 b \<Rightarrow> mul3 L a (newaxis b)
     | Array3 b \<Rightarrow> mul3 L a b)"

text \<open>
  \<^verbatim>\<open>np.nansum(a, 0)\<close>: every not-a-number element is replaced by zero and the array is
  summed along its first axis, channel after channel; the result has the two remaining
  axes.
\<close>

definition nan_to_zero :: "'a lib \<Rightarrow> 'a \<Rightarrow> 'a" where
  "nan_to_zero L x = (if np_isnan L x then np_zero L else x)"

definition sum_list_np :: "'a lib \<Rightarrow> 'a list \<Rightarrow> 'a" where
  "sum_list_np L xs = foldl (np_add L) (np_zero L) xs"

definition nansum0 :: "'a lib \<Rightarrow> 'a ndarray \<Rightarrow> 'a ndarray2" where
  "nansum0 L a = (case shape a of (n, h, w) \<Rightarrow>
     \<lparr>shape2 = (h, w),
      elems2 = map (\<lambda>y. map (\<lambda>x. sum_list_np L (map (\<lambda>p. nan_to_zero L (p ! y ! x)) (elems a)))
                          [0..<w]) [0..<h]\<rparr>)"

text \<open>
  \<^verbatim>\<open>np.searchsorted(a, v, sorter=sorter)\<close> is numpy's binary search for the leftmost
  insertion point of each key: the interval \<open>lo..hi\<close> is halved until it is empty, moving
  \<open>lo\<close> past the middle element when that element is smaller than the key. With a
  sorter the middle element is read through it (\<open>a[sorter[mid]]\<close>), and the result is an
  insertion point in the order the sorter describes, not an index of \<open>a\<close>. Each key is
  searched from the whole interval (numpy starts from an interval narrowed by the previous
  key, which on an ascending view gives the same insertion point).
\<close>

definition view :: "'b list \<Rightarrow> nat list option \<Rightarrow> nat \<Rightarrow> 'b" where
  "view a sorter i = (case sorter of None \<Rightarrow> a ! i | Some p \<Rightarrow> a ! (p ! i))"

function binsearch_left :: "real list \<Rightarrow> nat list option \<Rightarrow> real \<Rightarrow> nat \<Rightarrow> nat \<Rightarrow> nat" where
  "binsearch_left a sorter key lo hi =
     (if lo < hi then
        (let mid = lo + (hi - lo) div 2 in
         if view a sorter mid < key then binsearch_left a sorter key (mid + 1) hi
         else binsearch_left a sorter key lo mid)
      else lo)"
  by pat_completeness auto
termination
  by (relation "measure (\<lambda>(a, sorter, key, lo, hi). hi - lo)") auto

declare binsearch_left.simps [simp del]

definition searchsorted :: "real list \<Rightarrow> real list \<Rightarrow> nat list option \<Rightarrow> nat list" where
  "searchsorted a v sorter = map (\<lambda>key. binsearch_left a sorter key 0 (length a)) v"

text \<open>\<^verbatim>\<open>a[channels]\<close> with an array of indices: one index out of range raises.\<close>

definition take_indices :: "'b list \<Rightarrow> nat list \<Rightarrow> error + 'b list" where
  "take_indices a idx =
     (if list_all (\<lambda>i. i < length a) idx then Inr (map (\<lambda>i. a ! i) idx) else Inl IndexError)"

section \<open>The class \<^verbatim>\<open>Datacube\<close>\<close>

text \<open>
  \<^verbatim>\<open>__init__(path, data, header, dtype=np.float32)\<close>. With a path, the loop keeps the
  first extension whose \<^verbatim>\<open>is_image\<close> flag is set and leaves \<^verbatim>\<open>_hdu\<close> as it was when there
  is none.
\<close>

definition Datacube_init ::
  "'a lib \<Rightarrow> string option \<Rightarrow> 'a ndarray option \<Rightarrow> header option \<Rightarrow> dtype option
     \<Rightarrow> error + 'a Datacube" where
  "Datacube_init L path data_arg header_arg dtype_arg =
     (let self = \<lparr>p_wcs = None, p_hdu = None,
                  p_dtype = (case dtype_arg of None \<Rightarrow> ''float32'' | Some d \<Rightarrow> d),
                  p_axis_units = None, p_frequencies = None,
                  p_radio_velocities = None, p_optical_velocities = None\<rparr>
      in case path of
           Some p \<Rightarrow> Inr (self\<lparr>p_hdu := find is_image (fits_open L p)\<rparr>)
         | None \<Rightarrow>
             (case (data_arg, header_arg) of
                (Some d, Some h) \<Rightarrow>
                  Inr (self\<lparr>p_hdu := Some \<lparr>is_image = True, hdu_data = d, hdu_header = h\<rparr>\<rparr>)
              | _ \<Rightarrow> Inl (AttributeError ''Either path or data and header have to be set.'')))"

text \<open>The properties. Reading an attribute of \<^verbatim>\<open>_hdu\<close> fails when \<^verbatim>\<open>_hdu\<close> is \<^verbatim>\<open>None\<close>.\<close>

definition data :: "'a lib \<Rightarrow> ('a Datacube, 'a ndarray) call" where
  "data L self = (case p_hdu self of
       None \<Rightarrow> (Inl (AttributeError ''data''), self)
     | Some h \<Rightarrow>
         if dtype (hdu_data h) \<noteq> p_dtype self then
           (let h' = h\<lparr>hdu_data := astype L (p_dtype self) (hdu_data h)\<rparr>
            in (Inr (hdu_data h'), self\<lparr>p_hdu := Some h'\<rparr>))
         else (Inr (hdu_data h), self))"

definition header :: "('a Datacube, header) call" where
  "header self = (case p_hdu self of
       None \<Rightarrow> (Inl (AttributeError ''header''), self)
     | Some h \<Rightarrow> (Inr (hdu_header h), self))"

definition hdu :: "('a Datacube, 'a HDU option) call" where
  "hdu self = (Inr (p_hdu self), self)"

definition wcs :: "'a lib \<Rightarrow> ('a Datacube, wcsprm) call" where
  "wcs L self = (case p_wcs self of
       Some w \<Rightarrow> (Inr w, self)
     | None \<Rightarrow> then_do header (\<lambda>h s. (Inr (WCS L h), s\<lparr>p_wcs := Some (WCS L h)\<rparr>)) self)"

text \<open>
  \<^verbatim>\<open>spec_wcs\<close> and \<^verbatim>\<open>cel_wcs\<close> ask the library for a sub-system of the descriptor; the
  model hands the descriptor itself to the library functions that take the sub-system.
\<close>

definition spec_wcs :: "'a lib \<Rightarrow> ('a Datacube, wcsprm) call" where
  "spec_wcs L = wcs L"

definition cel_wcs :: "'a lib \<Rightarrow> ('a Datacube, wcsprm) call" where
  "cel_wcs L = wcs L"

definition axis_units :: "'a lib \<Rightarrow> ('a Datacube, string list) call" where
  "axis_units L self = (case p_axis_units self of
       Some us \<Rightarrow> (Inr us, self)
     | None \<Rightarrow> then_do (wcs L) (\<lambda>w s. (Inr (cunit w), s\<lparr>p_axis_units := Some (cunit w)\<rparr>)) self)"

text \<open>
  \<^verbatim>\<open>frequencies\<close>, statement by statement: the spectral axis index, the channel numbers
  \<^verbatim>\<open>arange(shape[::-1][specax])\<close>, their world coordinates, the unit of the axis, the
  equivalency chosen by the axis type, and the conversion to Hz, which is cached.
\<close>

definition unsupported_msg :: "string \<Rightarrow> string" where
  "unsupported_msg t = ''Unsupported spectral type '' @ t @ '' in header.''"

definition frequencies :: "'a lib \<Rightarrow> ('a Datacube, real list) call" where
  "frequencies L self = (case p_frequencies self of
       Some f \<Rightarrow> (Inr f, self)
     | None \<Rightarrow>
        then_do (wcs L) (\<lambda>w0.
        let specax = spec w0 in
        then_do (data L) (\<lambda>d.
        then_do (lift (case shape d of (n, h, w) \<Rightarrow> py_index (rev [n, h, w]) specax)) (\<lambda>nchan.
        let channels = [0..<nchan] in
        then_do (spec_wcs L) (\<lambda>sw.
        let specc = wcs_pix2world L sw channels in
        then_do (axis_units L) (\<lambda>us.
        then_do (lift (py_index us specax)) (\<lambda>unit_name.
        then_do (wcs L) (\<lambda>w1.
        then_do (lift (py_index (ctype w1) specax)) (\<lambda>t.
        then_do
          (if str_in ''VRAD'' t then ret (doppler_radio (restfrq w1))
           else if str_in ''VOPT'' t then ret (doppler_optical (restfrq w1))
           else if str_in ''FREQ'' t then ret no_equivalency
           else raise (AttributeError (unsupported_msg t))) (\<lambda>eq s.
        (Inr (to_Hz L unit_name eq specc),
         s\<lparr>p_frequencies := Some (to_Hz L unit_name eq specc)\<rparr>)))))))))) self)"

definition radio_velocities :: "'a lib \<Rightarrow> ('a Datacube, real list) call" where
  "radio_velocities L self = (case p_radio_velocities self of
       Some v \<Rightarrow> (Inr v, self)
     | None \<Rightarrow>
        then_do (wcs L) (\<lambda>w.
        let rad_eq = doppler_radio (restfrq w) in
        then_do (frequencies L) (\<lambda>f s.
        (Inr (to_km_s L rad_eq f), s\<lparr>p_radio_velocities := Some (to_km_s L rad_eq f)\<rparr>))) self)"

definition optical_velocities :: "'a lib \<Rightarrow> ('a Datacube, real list) call" where
  "optical_velocities L self = (case p_optical_velocities self of
       Some v \<Rightarrow> (Inr v, self)
     | None \<Rightarrow>
        then_do (wcs L) (\<lambda>w.
        let opt_eq = doppler_optical (restfrq w) in
        then_do (frequencies L) (\<lambda>f s.
        (Inr (to_km_s L opt_eq f), s\<lparr>p_optical_velocities := Some (to_km_s L opt_eq f)\<rparr>))) self)"

text \<open>
  \<^verbatim>\<open>radio_velocities_to_channels(velocities)\<close>. The velocities are a one-axis sequence
  of numbers in the unit of the axis (the conversion of a quantity with a unit is the
  library's). The search itself is a function of the axis, \<open>channels_of\<close>; the method
  reads the axis from the property, which is cached after the first read.
\<close>

definition channels_of :: "real list \<Rightarrow> real list \<Rightarrow> error + nat list \<times> real list" where
  "channels_of rv sv =
     (case py_index rv 0 of
        Inl e \<Rightarrow> Inl e
      | Inr v_first \<Rightarrow>
         (case py_index rv (- 1) of
            Inl e \<Rightarrow> Inl e
          | Inr v_last \<Rightarrow>
             (let sorter = (if v_first > v_last then Some (rev [0..<length rv]) else None);
                  channels = searchsorted rv sv sorter
              in (case take_indices rv channels of
                    Inl e \<Rightarrow> Inl e
                  | Inr true_velocities \<Rightarrow> Inr (channels, true_velocities)))))"

definition radio_velocities_to_channels ::
  "'a lib \<Rightarrow> real list \<Rightarrow> ('a Datacube, nat list \<times> real list) call" where
  "radio_velocities_to_channels L velocities =
     then_do (radio_velocities L) (\<lambda>rv. lift (channels_of rv velocities))"

section \<open>The class \<^verbatim>\<open>DatacubeMoments\<close>\<close>

text \<open>
  \<^verbatim>\<open>moment(vslice, cslice, kind, mask)\<close> on an object of \<^verbatim>\<open>EBHISDatacube\<close>, the one class
  of the module that has the method. The channel pair of a velocity range is the result
  of the lookup with its last entry increased by one; \<open>int_cslice\<close> is the list
  comprehension over \<^verbatim>\<open>izip([np.floor, np.ceil], cslice)\<close> (the lazy \<^verbatim>\<open>zip\<close> of Python 2,
  the language of the module), which stops at the shorter sequence. No class of the module defines the attribute \<^verbatim>\<open>velocities\<close> that the branch
  \<^verbatim>\<open>kind == 1\<close> reads first. A \<^verbatim>\<open>kind\<close> that is neither 0 nor 1 reaches the end of the
  function body, and so does a call without \<^verbatim>\<open>vslice\<close> and \<^verbatim>\<open>cslice\<close>: Python returns
  \<^verbatim>\<open>None\<close>.
\<close>

definition incr_last :: "real list \<Rightarrow> error + real list" where
  "incr_last cs = (case cs of [] \<Rightarrow> Inl IndexError | _ \<Rightarrow> Inr (butlast cs @ [last cs + 1]))"

definition int_cslice :: "real list \<Rightarrow> int list" where
  "int_cslice cs = map (\<lambda>(f, c). f c) (zip [floor, ceiling] cs)"

definition data_slice_of :: "real list \<Rightarrow> error + pyslice" where
  "data_slice_of cs = slice_of_args (int_cslice cs)"

definition cslice_of ::
  "'a lib \<Rightarrow> real list option \<Rightarrow> real list option \<Rightarrow> ('a Datacube, real list option) call" where
  "cslice_of L vslice cslice = (case vslice of
       None \<Rightarrow> ret cslice
     | Some v \<Rightarrow>
         then_do (radio_velocities_to_channels L v) (\<lambda>(channels, _).
         then_do (lift (incr_last (map real channels))) (\<lambda>cs. ret (Some cs))))"

definition mask_operand ::
  "'a lib \<Rightarrow> pyslice \<Rightarrow> 'a mask option \<Rightarrow> ('a Datacube, 'a operand) call" where
  "mask_operand L data_slice msk = (case msk of
       None \<Rightarrow> ret (Scalar (np_one L))
     | Some (Mask2 m) \<Rightarrow>
         then_do (data L) (\<lambda>d.
         if shape2 m = snd (shape d) then ret (Array3 (newaxis m))
         else then_do (data L) (\<lambda>d'. ret (Array2 m)))
     | Some (Mask3 m) \<Rightarrow>
         then_do (data L) (\<lambda>d.
         then_do (data L) (\<lambda>d'.
         if shape m = shape d' then ret (Array3 (slice3 data_slice m))
         else ret (Array3 m))))"

definition moment ::
  "'a lib \<Rightarrow> real list option \<Rightarrow> real list option \<Rightarrow> int \<Rightarrow> 'a mask option
     \<Rightarrow> ('a Datacube, 'a ndarray2 option) call" where
  "moment L vslice cslice kind msk =
     then_do (cslice_of L vslice cslice) (\<lambda>cs.
     case cs of
       None \<Rightarrow> ret None
     | Some c \<Rightarrow>
         then_do (lift (data_slice_of c)) (\<lambda>data_slice.
         then_do (mask_operand L data_slice msk) (\<lambda>m.
         then_do (data L) (\<lambda>d.
         let s_data = slice3 data_slice d in
         if kind = 0 then
           then_do (lift (multiply L s_data m)) (\<lambda>p. ret (Some (nansum0 L p)))
         else if kind = 1 then raise (AttributeError ''velocities'')
         else ret None))))"

section \<open>The class \<^verbatim>\<open>EBHISDatacube\<close>\<close>

text \<open>After the constructor of \<^verbatim>\<open>Datacube\<close>, three header keywords are overwritten.\<close>

definition EBHISDatacube_init ::
  "'a lib \<Rightarrow> string option \<Rightarrow> 'a ndarray option \<Rightarrow> header option \<Rightarrow> dtype option
     \<Rightarrow> error + 'a Datacube" where
  "EBHISDatacube_init L path data_arg header_arg dtype_arg =
     (case Datacube_init L path data_arg header_arg dtype_arg of
        Inl e \<Rightarrow> Inl e
      | Inr self \<Rightarrow>
          (case p_hdu self of
             None \<Rightarrow> Inl (AttributeError ''header'')
           | Some h \<Rightarrow>
               Inr (self\<lparr>p_hdu := Some (h\<lparr>hdu_header :=
                     (hdu_header h)(''CUNIT3'' \<mapsto> ''m/s'', ''CTYPE3'' \<mapsto> ''VRAD'',
                                    ''SPECSYS'' \<mapsto> ''LSRK'')\<rparr>)\<rparr>)))"

section \<open>Objects of the class and an example cube\<close>

text \<open>
  The objects a caller can hold: the result of a constructor, and the state any of the
  public properties and methods leaves behind.
\<close>

inductive reachable :: "'a lib \<Rightarrow> 'a Datacube \<Rightarrow> bool" for L :: "'a lib" where
  r_init: "Datacube_init L path d h k = Inr self \<Longrightarrow> reachable L self"
| r_ebhis: "EBHISDatacube_init L path d h k = Inr self \<Longrightarrow> reachable L self"
| r_data: "reachable L self \<Longrightarrow> reachable L (snd (data L self))"
| r_header: "reachable L self \<Longrightarrow> reachable L (snd (header self))"
| r_hdu: "reachable L self \<Longrightarrow> reachable L (snd (hdu self))"
| r_wcs: "reachable L self \<Longrightarrow> reachable L (snd (wcs L self))"
| r_spec_wcs: "reachable L self \<Longrightarrow> reachable L (snd (spec_wcs L self))"
| r_cel_wcs: "reachable L self \<Longrightarrow> reachable L (snd (cel_wcs L self))"
| r_axis_units: "reachable L self \<Longrightarrow> reachable L (snd (axis_units L self))"
| r_frequencies: "reachable L self \<Longrightarrow> reachable L (snd (frequencies L self))"
| r_radio: "reachable L self \<Longrightarrow> reachable L (snd (radio_velocities L self))"
| r_optical: "reachable L self \<Longrightarrow> reachable L (snd (optical_velocities L self))"
| r_channels: "reachable L self \<Longrightarrow> reachable L (snd (radio_velocities_to_channels L v self))"
| r_moment: "reachable L self \<Longrightarrow> reachable L (snd (moment L vs cs kind msk self))"

text \<open>
  What the caches hold on such an object: the descriptor is the one the library derives
  from the header, the axis units are the descriptor's, and a cached frequency axis was
  computed for a spectral axis type that \<^verbatim>\<open>frequencies\<close> accepts.
\<close>

definition supported :: "string \<Rightarrow> bool" where
  "supported t = (str_in ''VRAD'' t \<or> str_in ''VOPT'' t \<or> str_in ''FREQ'' t)"

definition caches_ok :: "'a lib \<Rightarrow> 'a Datacube \<Rightarrow> bool" where
  "caches_ok L self =
     ((\<forall>w. p_wcs self = Some w \<longrightarrow>
          (\<exists>h. p_hdu self = Some h \<and> w = WCS L (hdu_header h))) \<and>
      (\<forall>us. p_axis_units self = Some us \<longrightarrow> (\<exists>w. p_wcs self = Some w \<and> us = cunit w)) \<and>
      (\<forall>f. p_frequencies self = Some f \<longrightarrow>
          (\<exists>w t. p_wcs self = Some w \<and> py_index (ctype w) (spec w) = Inr t \<and> supported t)))"

text \<open>
  The axis seen by the binary search is ascending on its first \<open>n\<close> positions.
\<close>

definition sorted_view :: "real list \<Rightarrow> nat list option \<Rightarrow> nat \<Rightarrow> bool" where
  "sorted_view a sorter n = (\<forall>i j. i \<le> j \<and> j < n \<longrightarrow> view a sorter i \<le> view a sorter j)"

text \<open>
  An example: a library whose spectral axis is linear in the channel number (reference
  value \<open>crval\<close>, step \<open>cdelt\<close>), whose element arithmetic is that of the reals with a
  not-a-number value \<open>None\<close>, and whose file \<^verbatim>\<open>table.fits\<close> holds a single extension that
  is no image; a header; a cube of three channels of one row and two columns.
\<close>

definition example_array :: "real option ndarray" where
  "example_array = \<lparr>shape = (3, 1, 2),
      elems = [[[Some 1, None]], [[Some 2, Some 5]], [[Some 4, Some 7]]],
      dtype = ''float32''\<rparr>"

definition example_header :: "string \<Rightarrow> header" where
  "example_header t =
     [''CTYPE1'' \<mapsto> ''RA---SIN'', ''CTYPE2'' \<mapsto> ''DEC--SIN'', ''CTYPE3'' \<mapsto> t,
      ''CUNIT1'' \<mapsto> ''deg'', ''CUNIT2'' \<mapsto> ''deg'', ''CUNIT3'' \<mapsto> ''km/s'']"

definition example_lib :: "real \<Rightarrow> real \<Rightarrow> real option lib" where
  "example_lib crval cdelt =
     \<lparr>np_mul = (\<lambda>a b. case (a, b) of (Some x, Some y) \<Rightarrow> Some (x * y) | _ \<Rightarrow> None),
      np_add = (\<lambda>a b. case (a, b) of (Some x, Some y) \<Rightarrow> Some (x + y) | _ \<Rightarrow> None),
      np_zero = Some 0,
      np_one = Some 1,
      np_isnan = (\<lambda>a. a = None),
      np_astype = (\<lambda>d a. a),
      fits_open = (\<lambda>p. if p = ''table.fits''
                        then [\<lparr>is_image = False, hdu_data = example_array,
                               hdu_header = example_header ''VRAD''\<rparr>]
                        else [\<lparr>is_image = True, hdu_data = example_array,
                               hdu_header = example_header ''VRAD''\<rparr>]),
      WCS = (\<lambda>h. \<lparr>spec = 2,
                   ctype = map (\<lambda>k. case h k of None \<Rightarrow> [] | Some v \<Rightarrow> v)
                             [''CTYPE1'', ''CTYPE2'', ''CTYPE3''],
                   cunit = map (\<lambda>k. case h k of None \<Rightarrow> [] | Some v \<Rightarrow> v)
                             [''CUNIT1'', ''CUNIT2'', ''CUNIT3''],
                   restfrq = 1420405752\<rparr>),
      wcs_pix2world = (\<lambda>w chs. map (\<lambda>c. crval + cdelt * real c) chs),
      to_Hz = (\<lambda>u eq xs. xs),
      to_km_s = (\<lambda>eq xs. xs)\<rparr>"

definition example_cube :: "string \<Rightarrow> real option Datacube" where
  "example_cube t = \<lparr>p_wcs = None,
      p_hdu = Some \<lparr>is_image = True, hdu_data = example_array, hdu_header = example_header t\<rparr>,
      p_dtype = ''float32'', p_axis_units = None, p_frequencies = None,
      p_radio_velocities = None, p_optical_velocities = None\<rparr>"

definition example_no_image :: "real option Datacube" where
  "example_no_image = \<lparr>p_wcs = None, p_hdu = None, p_dtype = ''float32'',
      p_axis_units = None, p_frequencies = None,
      p_radio_velocities = None, p_optical_velocities = None\<rparr>"

definition example_plane :: "real option ndarray2" where
  "example_plane = \<lparr>shape2 = (1, 2), elems2 = [[Some 1, Some 0]]\<rparr>"

text \<open>A plane-shaped mask repeated on each of \<open>n\<close> channels.\<close>

definition expand_mask :: "nat \<Rightarrow> 'a ndarray2 \<Rightarrow> 'a ndarray" where
  "expand_mask n m = (case shape2 m of (h, w) \<Rightarrow>
     \<lparr>shape = (n, h, w), elems = replicate n (elems2 m), dtype = ''bool''\<rparr>)"

text \<open>A call keeps a property of the object when the state after it has the property too.\<close>

definition keeps :: "('s \<Rightarrow> bool) \<Rightarrow> ('s, 'r) call \<Rightarrow> bool" where
  "keeps P m = (\<forall>s. P s \<longrightarrow> P (snd (m s)))"

text \<open>An extension is loaded and its array has the shape \<open>sh\<close>.\<close>

definition cube_shape :: "nat \<times> nat \<times> nat \<Rightarrow> 'a Datacube \<Rightarrow> bool" where
  "cube_shape sh self =
     (\<exists>h. p_hdu self = Some h \<and> shape (hdu_data h) = sh \<and> length (elems (hdu_data h)) = fst sh)"

section \<open>The substring test\<close>

text \<open>\<open>str_in\<close> is Python's \<^verbatim>\<open>in\<close> on strings: the needle occurs between some prefix and some suffix.\<close>

lemma str_in_iff: "str_in needle hay \<longleftrightarrow> (\<exists>ps ss. hay = ps @ needle @ ss)"
proof (induction hay)
  case Nil
  then show ?case by simp
next
  case (Cons c cs)
  show ?case
  proof
    assume "str_in needle (c # cs)"
    then consider "take (length needle) (c # cs) = needle" | "str_in needle cs"
      by auto
    then show "\<exists>ps ss. c # cs = ps @ needle @ ss"
    proof cases
      case 1
      then have "c # cs = [] @ needle @ drop (length needle) (c # cs)"
        by (metis append_Nil append_take_drop_id)
      then show ?thesis by blast
    next
      case 2
      with Cons.IH obtain ps ss where "cs = ps @ needle @ ss" by blast
      then have "c # cs = (c # ps) @ needle @ ss" by simp
      then show ?thesis by blast
    qed
  next
    assume "\<exists>ps ss. c # cs = ps @ needle @ ss"
    then obtain ps ss where eq: "c # cs = ps @ needle @ ss" by blast
    show "str_in needle (c # cs)"
    proof (cases ps)
      case Nil
      with eq have "take (length needle) (c # cs) = needle" by simp
      then show ?thesis by simp
    next
      case (Cons p ps')
      with eq have "cs = ps' @ needle @ ss" by simp
      with Cons.IH have "str_in needle cs" by blast
      then show ?thesis by simp
    qed
  qed
qed

section \<open>Properties of \<^verbatim>\<open>moment\<close>\<close>

lemma data_slice_of_nonempty:
  "c \<noteq> [] \<Longrightarrow> \<exists>sl. data_slice_of c = Inr sl"
proof (cases c)
  case Nil
  assume "c \<noteq> []"
  with Nil show ?thesis by simp
next
  case (Cons c0 cs)
  then show ?thesis
    by (cases cs) (simp_all add: data_slice_of_def int_cslice_def)
qed

lemma data_loaded:
  "p_hdu self = Some h \<Longrightarrow> \<exists>d s'. data L self = (Inr d, s')"
  by (simp add: data_def Let_def)

lemma mask_operand_loaded:
  assumes "p_hdu self = Some h"
  shows "\<exists>m s' h'. mask_operand L sl msk self = (Inr m, s') \<and> p_hdu s' = Some h'"
proof (cases msk)
  case None
  with assms show ?thesis by (simp add: mask_operand_def ret_def)
next
  case (Some mm)
  with assms show ?thesis
    by (cases mm) (auto simp add: mask_operand_def ret_def then_do_def data_def Let_def)
qed

text \<open>
  C9. Without a velocity range and without a channel range, \<^verbatim>\<open>moment\<close> returns \<^verbatim>\<open>None\<close>
  for every kind and mask, raises nothing and leaves the object as it was.
\<close>

theorem moment_no_range:
  "moment L None None kind msk self = (Inr None, self)"
  by (simp add: moment_def cslice_of_def then_do_def ret_def)

text \<open>
  C6, as stated, fails: with a channel range and a kind that is neither 0 nor 1, the call
  on the example cube raises nothing and returns \<^verbatim>\<open>None\<close>.
\<close>

theorem moment_other_kind_counterexample:
  "fst (moment (example_lib 1 1) None (Some [0, 3]) 2 None (example_cube ''VRAD'')) = Inr None"
  by (simp add: moment_def cslice_of_def then_do_def ret_def lift_def data_slice_of_def
      int_cslice_def mask_operand_def data_def example_cube_def example_array_def)

text \<open>
  C6, amended. On a cube with a loaded extension, for every kind other than 0 and 1,
  every non-empty channel range and every mask, \<^verbatim>\<open>moment\<close> raises no error and returns
  \<^verbatim>\<open>None\<close>.
\<close>

theorem moment_other_kind:
  assumes "kind \<noteq> 0" "kind \<noteq> 1" "c \<noteq> []" "p_hdu self = Some h"
  shows "fst (moment L None (Some c) kind msk self) = Inr None"
proof -
  obtain sl where sl: "data_slice_of c = Inr sl"
    using data_slice_of_nonempty[OF assms(3)] by blast
  obtain m s' h' where m: "mask_operand L sl msk self = (Inr m, s')" and h': "p_hdu s' = Some h'"
    using mask_operand_loaded[OF assms(4)] by blast
  obtain d s'' where d: "data L s' = (Inr d, s'')"
    using data_loaded[OF h'] by blast
  show ?thesis
    using assms(1,2) sl m d
    by (simp add: moment_def cslice_of_def then_do_def ret_def lift_def)
qed

theorem moment_other_kind_witness:
  "(5::int) \<noteq> 0 \<and> (5::int) \<noteq> 1 \<and> [0, 3 :: real] \<noteq> [] \<and>
   p_hdu (example_cube ''VRAD'') =
     Some \<lparr>is_image = True, hdu_data = example_array, hdu_header = example_header ''VRAD''\<rparr> \<and>
   fst (moment (example_lib 1 1) None (Some [0, 3]) 5 (Some (Mask2 example_plane))
          (example_cube ''VRAD'')) = Inr None"
proof -
  have h: "p_hdu (example_cube ''VRAD'') =
     Some \<lparr>is_image = True, hdu_data = example_array, hdu_header = example_header ''VRAD''\<rparr>"
    by (simp add: example_cube_def)
  have k0: "(5::int) \<noteq> 0" and k1: "(5::int) \<noteq> 1" and c: "[0, 3 :: real] \<noteq> []"
    by simp_all
  show ?thesis
    using h moment_other_kind[OF k0 k1 c h, of "example_lib 1 1" "Some (Mask2 example_plane)"]
    by simp
qed

text \<open>
  The branch \<^verbatim>\<open>kind == 1\<close> on any cube with a loaded extension and a non-empty channel
  range: the read of \<^verbatim>\<open>self.velocities\<close> raises.
\<close>

lemma moment_kind1_attribute_error:
  assumes "c \<noteq> []" "p_hdu self = Some h"
  shows "fst (moment L None (Some c) 1 msk self) = Inl (AttributeError ''velocities'')"
proof -
  obtain sl where sl: "data_slice_of c = Inr sl"
    using data_slice_of_nonempty[OF assms(1)] by blast
  obtain m s' h' where m: "mask_operand L sl msk self = (Inr m, s')" and h': "p_hdu s' = Some h'"
    using mask_operand_loaded[OF assms(2)] by blast
  obtain d s'' where d: "data L s' = (Inr d, s'')"
    using data_loaded[OF h'] by blast
  show ?thesis
    using sl m d
    by (simp add: moment_def cslice_of_def then_do_def ret_def lift_def raise_def)
qed

text \<open>
  C3. The claim is that \<^verbatim>\<open>moment\<close> with \<^verbatim>\<open>kind = 1\<close> returns the intensity-weighted mean
  velocity. On the example cube, with the channel range 0..3, the call returns no map: it
  raises the \<^verbatim>\<open>AttributeError\<close> of the missing attribute \<^verbatim>\<open>velocities\<close>.
\<close>

theorem moment_kind1_example:
  "fst (moment (example_lib 1 1) None (Some [0, 3]) 1 None (example_cube ''VRAD''))
     = Inl (AttributeError ''velocities'')"
  by (simp add: moment_def cslice_of_def then_do_def ret_def lift_def data_slice_of_def
      int_cslice_def mask_operand_def data_def example_cube_def example_array_def raise_def)

section \<open>Construction\<close>

text \<open>
  C10, as stated, fails: after the construction from \<^verbatim>\<open>table.fits\<close>, whose only extension
  is no image, the property \<^verbatim>\<open>hdu\<close> does not fail; it returns \<^verbatim>\<open>None\<close>.
\<close>

theorem init_no_image_counterexample:
  "Datacube_init (example_lib 1 1) (Some ''table.fits'') None None None = Inr example_no_image \<and>
   fst (hdu example_no_image) = Inr None"
  by (simp add: Datacube_init_def example_lib_def example_no_image_def hdu_def)

text \<open>
  C10, amended. For every file none of whose extensions is flagged as an image, the
  construction from its path raises nothing and leaves no extension loaded; every later
  read of \<^verbatim>\<open>data\<close> or \<^verbatim>\<open>header\<close> fails, and \<^verbatim>\<open>hdu\<close> returns \<^verbatim>\<open>None\<close>. The constructor
  raises (the configuration error) exactly when the path is absent and the array or the
  metadata is absent.
\<close>

theorem init_no_image:
  assumes "list_all (\<lambda>x. \<not> is_image x) (fits_open L p)"
  shows "(\<exists>self. Datacube_init L (Some p) d h k = Inr self \<and> p_hdu self = None \<and>
            data L self = (Inl (AttributeError ''data''), self) \<and>
            header self = (Inl (AttributeError ''header''), self) \<and>
            hdu self = (Inr None, self)) \<and>
         ((\<exists>e. Datacube_init L path d' h' k' = Inl e) \<longleftrightarrow>
            (path = None \<and> (d' = None \<or> h' = None))) \<and>
         (\<forall>e. Datacube_init L path d' h' k' = Inl e \<longrightarrow>
            e = AttributeError ''Either path or data and header have to be set.'')"
proof (intro conjI)
  have "find is_image (fits_open L p) = None"
    using assms by (simp add: find_None_iff list_all_iff)
  then show "\<exists>self. Datacube_init L (Some p) d h k = Inr self \<and> p_hdu self = None \<and>
           data L self = (Inl (AttributeError ''data''), self) \<and>
           header self = (Inl (AttributeError ''header''), self) \<and>
           hdu self = (Inr None, self)"
    by (simp add: Datacube_init_def data_def header_def hdu_def Let_def)
  show "(\<exists>e. Datacube_init L path d' h' k' = Inl e) \<longleftrightarrow>
          (path = None \<and> (d' = None \<or> h' = None))"
    by (auto simp add: Datacube_init_def Let_def split: option.splits)
  show "\<forall>e. Datacube_init L path d' h' k' = Inl e \<longrightarrow>
          e = AttributeError ''Either path or data and header have to be set.''"
    by (auto simp add: Datacube_init_def Let_def split: option.splits)
qed

theorem init_no_image_witness:
  "list_all (\<lambda>x. \<not> is_image x) (fits_open (example_lib 1 1) ''table.fits'') \<and>
   Datacube_init (example_lib 1 1) (Some ''table.fits'') None None None = Inr example_no_image \<and>
   data (example_lib 1 1) example_no_image = (Inl (AttributeError ''data''), example_no_image) \<and>
   header example_no_image = (Inl (AttributeError ''header''), example_no_image) \<and>
   hdu example_no_image = (Inr None, example_no_image) \<and>
   Datacube_init (example_lib 1 1) None (Some example_array) None None =
     Inl (AttributeError ''Either path or data and header have to be set.'')"
proof -
  have a: "list_all (\<lambda>x. \<not> is_image x) (fits_open (example_lib 1 1) ''table.fits'')"
    by (simp add: example_lib_def)
  have b: "Datacube_init (example_lib 1 1) (Some ''table.fits'') None None None
             = Inr example_no_image"
    by (simp add: Datacube_init_def example_lib_def example_no_image_def)
  note t = init_no_image[OF a, of None None None None "Some example_array" None None]
  from t b have c: "data (example_lib 1 1) example_no_image
                      = (Inl (AttributeError ''data''), example_no_image) \<and>
                    header example_no_image = (Inl (AttributeError ''header''), example_no_image) \<and>
                    hdu example_no_image = (Inr None, example_no_image)"
    by auto
  from t obtain e where "Datacube_init (example_lib 1 1) None (Some example_array) None None = Inl e"
    by blast
  with t have d: "Datacube_init (example_lib 1 1) None (Some example_array) None None =
     Inl (AttributeError ''Either path or data and header have to be set.'')"
    by blast
  from a b c d show ?thesis by simp
qed

text \<open>
  The constructor of \<^verbatim>\<open>EBHISDatacube\<close> on such a file does raise: it writes to the header
  of the extension that was not loaded.
\<close>

lemma ebhis_init_no_image:
  assumes "list_all (\<lambda>x. \<not> is_image x) (fits_open L p)"
  shows "EBHISDatacube_init L (Some p) d h k = Inl (AttributeError ''header'')"
proof -
  have "find is_image (fits_open L p) = None"
    using assms by (simp add: find_None_iff list_all_iff)
  then show ?thesis
    by (simp add: EBHISDatacube_init_def Datacube_init_def Let_def)
qed

section \<open>The caches of a reachable object\<close>

lemma keepsD:
  assumes "keeps P m" "P s" "m s = (r, s')"
  shows "P s'"
  using assms by (auto simp add: keeps_def)

lemma keeps_ret: "keeps P (ret r)"
  by (simp add: keeps_def ret_def)

lemma keeps_raise: "keeps P (raise e)"
  by (simp add: keeps_def raise_def)

lemma keeps_lift: "keeps P (lift x)"
  by (simp add: keeps_def lift_def)

lemma keeps_then_do:
  assumes "keeps P m" "\<And>r. keeps P (f r)"
  shows "keeps P (then_do m f)"
proof -
  have "P (snd (then_do m f s))" if "P s" for s
  proof (cases "m s")
    case (Pair x s')
    then have s': "P s'" using assms(1) that by (force simp add: keeps_def)
    show ?thesis
    proof (cases x)
      case (Inl e)
      with Pair s' show ?thesis by (simp add: then_do_def)
    next
      case (Inr r)
      with Pair s' assms(2)[of r] show ?thesis by (simp add: then_do_def keeps_def)
    qed
  qed
  then show ?thesis by (simp add: keeps_def)
qed

lemma keeps_data: "keeps (caches_ok L) (data L)"
  by (auto simp add: keeps_def data_def caches_ok_def Let_def split: option.splits)

lemma keeps_header: "keeps (caches_ok L) header"
  by (auto simp add: keeps_def header_def split: option.splits)

lemma keeps_hdu: "keeps (caches_ok L) hdu"
  by (auto simp add: keeps_def hdu_def split: option.splits)

lemma keeps_wcs: "keeps (caches_ok L) (wcs L)"
  by (auto simp add: keeps_def wcs_def header_def then_do_def caches_ok_def split: option.splits)

lemma keeps_axis_units: "keeps (caches_ok L) (axis_units L)"
  by (auto simp add: keeps_def axis_units_def wcs_def header_def then_do_def caches_ok_def split: option.splits)


lemma wcs_loaded:
  assumes "caches_ok L s" "p_hdu s = Some h"
  shows "wcs L s = (Inr (WCS L (hdu_header h)), s\<lparr>p_wcs := Some (WCS L (hdu_header h))\<rparr>)"
  using assms
  by (auto simp add: wcs_def header_def then_do_def caches_ok_def split: option.splits)

lemma data_loaded_state:
  assumes "p_hdu s = Some h"
  shows "\<exists>d h'. data L s = (Inr d, s\<lparr>p_hdu := Some h'\<rparr>) \<and> hdu_header h' = hdu_header h
          \<and> shape d = shape (hdu_data h)"
  using assms
  by (auto simp add: data_def Let_def astype_def intro: exI[of _ h])

lemma axis_units_loaded:
  assumes "caches_ok L s" "p_hdu s = Some h"
  shows "axis_units L s = (Inr (cunit (WCS L (hdu_header h))),
            s\<lparr>p_wcs := Some (WCS L (hdu_header h)),
              p_axis_units := Some (cunit (WCS L (hdu_header h)))\<rparr>)"
  using assms
  by (auto simp add: axis_units_def wcs_def header_def then_do_def caches_ok_def split: option.splits)

lemma py_index3:
  assumes "- 3 \<le> i" "i < 3"
  shows "\<exists>m. py_index (rev [n, h, w]) i = Inr (m::nat)"
  using assms by (simp add: py_index_def)


lemma frequencies_steps:
  assumes inv: "caches_ok L s" and hdu: "p_hdu s = Some h"
  obtains d h' s2 s3 where
    "wcs L s = (Inr (WCS L (hdu_header h)), s\<lparr>p_wcs := Some (WCS L (hdu_header h))\<rparr>)"
    "data L (s\<lparr>p_wcs := Some (WCS L (hdu_header h))\<rparr>) = (Inr d, s2)"
    "shape d = shape (hdu_data h)"
    "wcs L s2 = (Inr (WCS L (hdu_header h)), s2)"
    "axis_units L s2 = (Inr (cunit (WCS L (hdu_header h))), s3)"
    "wcs L s3 = (Inr (WCS L (hdu_header h)), s3)"
    "caches_ok L s2" "caches_ok L s3"
    "p_wcs s3 = Some (WCS L (hdu_header h))"
    "p_frequencies s2 = p_frequencies s" "p_frequencies s3 = p_frequencies s"
proof -
  define w where "w = WCS L (hdu_header h)"
  define s1 where "s1 = s\<lparr>p_wcs := Some w\<rparr>"
  have w1: "wcs L s = (Inr w, s1)"
    using wcs_loaded[OF inv hdu] by (simp add: w_def s1_def)
  have inv1: "caches_ok L s1"
    by (rule keepsD[OF keeps_wcs inv w1])
  have hdu1: "p_hdu s1 = Some h" using hdu by (simp add: s1_def)
  obtain d h' where d: "data L s1 = (Inr d, s1\<lparr>p_hdu := Some h'\<rparr>)"
    and hh: "hdu_header h' = hdu_header h" and sh: "shape d = shape (hdu_data h)"
    using data_loaded_state[OF hdu1] by blast
  define s2 where "s2 = s1\<lparr>p_hdu := Some h'\<rparr>"
  have inv2: "caches_ok L s2"
    unfolding s2_def by (rule keepsD[OF keeps_data inv1 d])
  have hdu2: "p_hdu s2 = Some h'" by (simp add: s2_def)
  have w2: "wcs L s2 = (Inr w, s2)"
    using wcs_loaded[OF inv2 hdu2] hh by (simp add: w_def s2_def s1_def)
  define s3 where "s3 = s2\<lparr>p_axis_units := Some (cunit w)\<rparr>"
  have a2: "axis_units L s2 = (Inr (cunit w), s3)"
    using axis_units_loaded[OF inv2 hdu2] hh by (simp add: w_def s3_def s2_def s1_def)
  have inv3: "caches_ok L s3"
    by (rule keepsD[OF keeps_axis_units inv2 a2])
  have w3: "wcs L s3 = (Inr w, s3)"
    by (simp add: wcs_def s3_def s2_def s1_def)
  have p2: "p_frequencies s2 = p_frequencies s"
    by (simp add: s2_def s1_def)
  have p3: "p_frequencies s3 = p_frequencies s"
    by (simp add: s3_def s2_def s1_def)
  have pw: "p_wcs s3 = Some w"
    by (simp add: s3_def s2_def s1_def)
  show thesis
    by (rule that[OF w1[unfolded s1_def w_def] d[folded s2_def, unfolded s1_def w_def] sh
          w2[unfolded w_def] a2[unfolded w_def] w3[unfolded w_def] inv2 inv3
          pw[unfolded w_def] p2 p3])
qed

lemma frequencies_unsupported_aux:
  assumes inv: "caches_ok L s" and hdu: "p_hdu s = Some h"
    and t: "py_index (ctype (WCS L (hdu_header h))) (spec (WCS L (hdu_header h))) = Inr t"
    and u: "py_index (cunit (WCS L (hdu_header h))) (spec (WCS L (hdu_header h))) = Inr u"
    and lo: "- 3 \<le> spec (WCS L (hdu_header h))" and hi: "spec (WCS L (hdu_header h)) < 3"
    and uns: "\<not> supported t"
  shows "fst (frequencies L s) = Inl (AttributeError (unsupported_msg t)) \<and>
         p_frequencies (snd (frequencies L s)) = None"
proof -
  define w where "w = WCS L (hdu_header h)"
  have none: "p_frequencies s = None"
  proof (cases "p_frequencies s")
    case None
    then show ?thesis .
  next
    case (Some f)
    with inv obtain w' t' where "p_wcs s = Some w'" "py_index (ctype w') (spec w') = Inr t'" "supported t'"
      by (auto simp add: caches_ok_def)
    moreover from inv hdu \<open>p_wcs s = Some w'\<close> have "w' = WCS L (hdu_header h)"
      by (auto simp add: caches_ok_def)
    ultimately show ?thesis using t uns by simp
  qed
  obtain d h' s2 s3 where
    w1: "wcs L s = (Inr w, s\<lparr>p_wcs := Some w\<rparr>)" and
    d: "data L (s\<lparr>p_wcs := Some w\<rparr>) = (Inr d, s2)" and
    w2: "wcs L s2 = (Inr w, s2)" and
    a2: "axis_units L s2 = (Inr (cunit w), s3)" and
    w3: "wcs L s3 = (Inr w, s3)" and
    p3: "p_frequencies s3 = p_frequencies s"
    using frequencies_steps[OF inv hdu] unfolding w_def by metis
  obtain nchan where nchan: "(case shape d of (n, hh, ww) \<Rightarrow> py_index (rev [n, hh, ww]) (spec w)) = Inr nchan"
  proof (cases "shape d")
    case (fields n hh ww)
    obtain m where "py_index (rev [n, hh, ww]) (spec w) = Inr m"
      using py_index3[OF lo hi, of n hh ww] by (auto simp add: w_def)
    with fields that show ?thesis by simp
  qed
  have "frequencies L s = (Inl (AttributeError (unsupported_msg t)), s3)"
    unfolding frequencies_def
    using none w1 d nchan w2 a2 w3 t u uns
    by (simp add: then_do_def lift_def spec_wcs_def raise_def ret_def
        w_def[symmetric] supported_def Let_def)
  with p3 none show ?thesis by simp
qed

lemma keeps_frequencies: "keeps (caches_ok L) (frequencies L)"
proof -
  have "caches_ok L (snd (frequencies L s))" if inv: "caches_ok L s" for s
  proof (cases "p_frequencies s")
    case (Some f)
    with inv show ?thesis by (simp add: frequencies_def)
  next
    case None
    show ?thesis
    proof (cases "p_hdu s")
      case no: None
      with inv have "p_wcs s = None" by (cases "p_wcs s") (auto simp add: caches_ok_def)
      with no None inv show ?thesis
        by (simp add: frequencies_def wcs_def header_def then_do_def)
    next
      case (Some h)
      define w where "w = WCS L (hdu_header h)"
      obtain d h' s2 s3 where
        w1: "wcs L s = (Inr w, s\<lparr>p_wcs := Some w\<rparr>)" and
        d: "data L (s\<lparr>p_wcs := Some w\<rparr>) = (Inr d, s2)" and
        w2: "wcs L s2 = (Inr w, s2)" and
        a2: "axis_units L s2 = (Inr (cunit w), s3)" and
        w3: "wcs L s3 = (Inr w, s3)" and
        inv2: "caches_ok L s2" and inv3: "caches_ok L s3" and
        pw: "p_wcs s3 = Some w"
        using frequencies_steps[OF inv Some] unfolding w_def by metis
      have fin: "caches_ok L (s3\<lparr>p_frequencies := Some F\<rparr>)"
        if "py_index (ctype w) (spec w) = Inr t" "supported t" for t F
        using inv3 pw that by (auto simp add: caches_ok_def)
      show ?thesis
        unfolding frequencies_def
        using None w1 d w2 a2 w3 inv2 inv3 fin
        by (auto simp add: then_do_def lift_def spec_wcs_def raise_def ret_def
            supported_def Let_def split: sum.splits prod.splits)
    qed
  qed
  then show ?thesis by (simp add: keeps_def)
qed

lemma keeps_radio_velocities: "keeps (caches_ok L) (radio_velocities L)"
proof -
  have fin: "keeps (caches_ok L)
      (\<lambda>s. (Inr (to_km_s L eq f), s\<lparr>p_radio_velocities := Some (to_km_s L eq f)\<rparr>))" for eq f
    by (auto simp add: keeps_def caches_ok_def)
  have "keeps (caches_ok L) (then_do (wcs L) (\<lambda>w.
        let rad_eq = doppler_radio (restfrq w) in
        then_do (frequencies L) (\<lambda>f s.
        (Inr (to_km_s L rad_eq f), s\<lparr>p_radio_velocities := Some (to_km_s L rad_eq f)\<rparr>))))"
    by (intro keeps_then_do keeps_wcs) (simp add: Let_def keeps_then_do keeps_frequencies fin)
  then show ?thesis
    by (auto simp add: keeps_def radio_velocities_def split: option.splits)
qed

lemma keeps_optical_velocities: "keeps (caches_ok L) (optical_velocities L)"
proof -
  have fin: "keeps (caches_ok L)
      (\<lambda>s. (Inr (to_km_s L eq f), s\<lparr>p_optical_velocities := Some (to_km_s L eq f)\<rparr>))" for eq f
    by (auto simp add: keeps_def caches_ok_def)
  have "keeps (caches_ok L) (then_do (wcs L) (\<lambda>w.
        let opt_eq = doppler_optical (restfrq w) in
        then_do (frequencies L) (\<lambda>f s.
        (Inr (to_km_s L opt_eq f), s\<lparr>p_optical_velocities := Some (to_km_s L opt_eq f)\<rparr>))))"
    by (intro keeps_then_do keeps_wcs) (simp add: Let_def keeps_then_do keeps_frequencies fin)
  then show ?thesis
    by (auto simp add: keeps_def optical_velocities_def split: option.splits)
qed

lemma keeps_channels: "keeps (caches_ok L) (radio_velocities_to_channels L v)"
  unfolding radio_velocities_to_channels_def
  by (intro keeps_then_do keeps_radio_velocities keeps_lift)

lemma keeps_cslice_of: "keeps (caches_ok L) (cslice_of L vs cs)"
proof (cases vs)
  case None
  then show ?thesis by (simp add: cslice_of_def keeps_ret)
next
  case (Some v)
  have "keeps (caches_ok L) (then_do (radio_velocities_to_channels L v) (\<lambda>(channels, _).
         then_do (lift (incr_last (map real channels))) (\<lambda>cs. ret (Some cs))))"
    by (intro keeps_then_do keeps_channels) (auto intro!: keeps_then_do keeps_lift keeps_ret)
  with Some show ?thesis by (simp add: cslice_of_def)
qed

lemma keeps_mask_operand: "keeps (caches_ok L) (mask_operand L sl msk)"
proof (cases msk)
  case None
  then show ?thesis by (simp add: mask_operand_def keeps_ret)
next
  case (Some mm)
  then show ?thesis
    by (cases mm) (auto simp add: mask_operand_def intro!: keeps_then_do keeps_data keeps_ret)
qed

lemma keeps_moment: "keeps (caches_ok L) (moment L vs cs kind msk)"
  unfolding moment_def
  by (intro keeps_then_do keeps_cslice_of)
     (auto simp add: Let_def split: option.splits
       intro!: keeps_then_do keeps_lift keeps_ret keeps_raise keeps_mask_operand keeps_data)

lemma caches_ok_init:
  assumes "Datacube_init L path d h k = Inr self"
  shows "caches_ok L self"
  using assms
  by (auto simp add: Datacube_init_def caches_ok_def Let_def split: option.splits)

lemma caches_ok_ebhis:
  assumes "EBHISDatacube_init L path d h k = Inr self"
  shows "caches_ok L self"
  using assms
  by (auto simp add: EBHISDatacube_init_def Datacube_init_def caches_ok_def Let_def
      split: option.splits sum.splits)

lemma reachable_caches_ok:
  assumes "reachable L self"
  shows "caches_ok L self"
  using assms
proof (induction rule: reachable.induct)
  case (r_init path d h k self)
  then show ?case by (rule caches_ok_init)
next
  case (r_ebhis path d h k self)
  then show ?case by (rule caches_ok_ebhis)
next
  case (r_data self)
  then show ?case using keeps_data[of L] by (simp add: keeps_def)
next
  case (r_header self)
  then show ?case using keeps_header[of L] by (simp add: keeps_def)
next
  case (r_hdu self)
  then show ?case using keeps_hdu[of L] by (simp add: keeps_def)
next
  case (r_wcs self)
  then show ?case using keeps_wcs[of L] by (simp add: keeps_def)
next
  case (r_spec_wcs self)
  then show ?case using keeps_wcs[of L] by (simp add: keeps_def spec_wcs_def)
next
  case (r_cel_wcs self)
  then show ?case using keeps_wcs[of L] by (simp add: keeps_def cel_wcs_def)
next
  case (r_axis_units self)
  then show ?case using keeps_axis_units[of L] by (simp add: keeps_def)
next
  case (r_frequencies self)
  then show ?case using keeps_frequencies[of L] by (simp add: keeps_def)
next
  case (r_radio self)
  then show ?case using keeps_radio_velocities[of L] by (simp add: keeps_def)
next
  case (r_optical self)
  then show ?case using keeps_optical_velocities[of L] by (simp add: keeps_def)
next
  case (r_channels self v)
  then show ?case using keeps_channels[of L v] by (simp add: keeps_def)
next
  case (r_moment self vs cs kind msk)
  then show ?case using keeps_moment[of L vs cs kind msk] by (simp add: keeps_def)
qed

text \<open>
  C5. On every object of the class whose extension is loaded and whose descriptor records,
  for the spectral axis, a type string \<open>t\<close> containing none of \<^verbatim>\<open>VRAD\<close>, \<^verbatim>\<open>VOPT\<close> and
  \<^verbatim>\<open>FREQ\<close> (the descriptor being that of a three-axis cube with a unit for the spectral
  axis), reading \<^verbatim>\<open>frequencies\<close> raises the error whose message names \<open>t\<close>, and no
  frequency axis is cached.
\<close>

theorem frequencies_unsupported:
  assumes "reachable L self" and "p_hdu self = Some h"
    and "py_index (ctype (WCS L (hdu_header h))) (spec (WCS L (hdu_header h))) = Inr t"
    and "py_index (cunit (WCS L (hdu_header h))) (spec (WCS L (hdu_header h))) = Inr u"
    and "- 3 \<le> spec (WCS L (hdu_header h))" and "spec (WCS L (hdu_header h)) < 3"
    and "\<not> str_in ''VRAD'' t" and "\<not> str_in ''VOPT'' t" and "\<not> str_in ''FREQ'' t"
  shows "fst (frequencies L self) =
           Inl (AttributeError (''Unsupported spectral type '' @ t @ '' in header.'')) \<and>
         p_frequencies (snd (frequencies L self)) = None"
proof -
  have "caches_ok L self"
    using assms(1) by (rule reachable_caches_ok)
  moreover have "\<not> supported t"
    using assms(7-9) by (simp add: supported_def)
  ultimately show ?thesis
    using frequencies_unsupported_aux[OF _ assms(2-6)] by (simp add: unsupported_msg_def)
qed

theorem frequencies_unsupported_witness:
  "reachable (example_lib 1 1) (example_cube ''VELO-LSR'') \<and>
   \<not> str_in ''VRAD'' ''VELO-LSR'' \<and> \<not> str_in ''VOPT'' ''VELO-LSR'' \<and>
   \<not> str_in ''FREQ'' ''VELO-LSR'' \<and>
   fst (frequencies (example_lib 1 1) (example_cube ''VELO-LSR'')) =
     Inl (AttributeError ''Unsupported spectral type VELO-LSR in header.'') \<and>
   p_frequencies (snd (frequencies (example_lib 1 1) (example_cube ''VELO-LSR''))) = None"
proof -
  define h where "h = \<lparr>is_image = True, hdu_data = example_array,
                        hdu_header = example_header ''VELO-LSR''\<rparr>"
  have "Datacube_init (example_lib 1 1) None (Some example_array)
          (Some (example_header ''VELO-LSR'')) None = Inr (example_cube ''VELO-LSR'')"
    by (simp add: Datacube_init_def example_cube_def)
  then have r: "reachable (example_lib 1 1) (example_cube ''VELO-LSR'')"
    by (rule r_init)
  have hd: "p_hdu (example_cube ''VELO-LSR'') = Some h"
    by (simp add: example_cube_def h_def)
  have w: "WCS (example_lib 1 1) (hdu_header h) =
      \<lparr>spec = 2, ctype = [''RA---SIN'', ''DEC--SIN'', ''VELO-LSR''],
       cunit = [''deg'', ''deg'', ''km/s''], restfrq = 1420405752\<rparr>"
    by (simp add: example_lib_def h_def example_header_def)
  have t: "py_index (ctype (WCS (example_lib 1 1) (hdu_header h)))
             (spec (WCS (example_lib 1 1) (hdu_header h))) = Inr ''VELO-LSR''"
    unfolding w by (simp add: py_index_def)
  have u: "py_index (cunit (WCS (example_lib 1 1) (hdu_header h)))
             (spec (WCS (example_lib 1 1) (hdu_header h))) = Inr ''km/s''"
    unfolding w by (simp add: py_index_def)
  have lo: "- 3 \<le> spec (WCS (example_lib 1 1) (hdu_header h))"
    and hi: "spec (WCS (example_lib 1 1) (hdu_header h)) < 3"
    unfolding w by simp_all
  have n1: "\<not> str_in ''VRAD'' ''VELO-LSR''" and n2: "\<not> str_in ''VOPT'' ''VELO-LSR''"
    and n3: "\<not> str_in ''FREQ'' ''VELO-LSR''"
    by simp_all
  show ?thesis
    using r n1 n2 n3 frequencies_unsupported[OF r hd t u lo hi n1 n2 n3]
    by simp
qed

section \<open>The zeroth moment\<close>

lemma getslice_full:
  assumes "lo = 0" "int (length xs) \<le> hi"
  shows "getslice (Slice (Some lo) (Some hi)) xs = xs"
  using assms by (simp add: getslice_def slice_bounds_def norm_index_def)

lemma slice3_full:
  assumes "wf3 d" "shape d = (n, hh, ww)" "lo = 0" "int n \<le> hi"
  shows "slice3 (Slice (Some lo) (Some hi)) d = d"
proof -
  have len: "length (elems d) = n"
    using assms(1,2) by (simp add: wf3_def)
  then have "getslice (Slice (Some lo) (Some hi)) (elems d) = elems d"
    using assms(3,4) by (simp add: getslice_full)
  then show ?thesis
    using assms(2) len by (simp add: slice3_def)
qed

lemma multiply_one:
  assumes "\<forall>x. np_mul L x (np_one L) = x"
  shows "multiply L d (Scalar (np_one L)) = Inr d"
proof -
  have "map (map (map (\<lambda>x. np_mul L x (np_one L)))) (elems d) = elems d"
    using assms by simp
  then show ?thesis by (simp add: multiply_def)
qed

lemma nansum0_shape: "shape d = (n, hh, ww) \<Longrightarrow> shape2 (nansum0 L d) = (hh, ww)"
  by (simp add: nansum0_def)

lemma nansum0_elem:
  assumes "shape d = (n, hh, ww)" "length (elems d) = n" "y < hh" "x < ww"
  shows "elems2 (nansum0 L d) ! y ! x =
     foldl (np_add L) (np_zero L)
       (map (\<lambda>c. if np_isnan L (elems d ! c ! y ! x) then np_zero L else elems d ! c ! y ! x)
            [0..<n])"
proof -
  have "map (\<lambda>p. nan_to_zero L (p ! y ! x)) (elems d) =
        map (\<lambda>c. nan_to_zero L (elems d ! c ! y ! x)) [0..<length (elems d)]"
    by (simp add: map_equality_iff)
  moreover have "elems2 (nansum0 L d) ! y ! x =
        sum_list_np L (map (\<lambda>p. nan_to_zero L (p ! y ! x)) (elems d))"
    using assms by (simp add: nansum0_def)
  ultimately show ?thesis
    using assms(2) by (simp add: sum_list_np_def nan_to_zero_def)
qed

text \<open>
  C4. With \<^verbatim>\<open>kind = 0\<close>, no mask and a channel range whose floored lower bound is 0 and
  whose ceiled upper bound reaches the number of channels, \<^verbatim>\<open>moment\<close> returns the sum of
  the data (as the property \<^verbatim>\<open>data\<close> returns it) along the spectral axis with every
  not-a-number entry counted as zero: a map of the spatial shape of the cube whose entry at
  \<open>(y, x)\<close> is the sum over all channels \<open>c\<close> of the entry \<open>(c, y, x)\<close>, or of zero where that
  entry is not a number. The multiplication by the float \<^verbatim>\<open>1.\<close> changes no element.
\<close>

theorem moment0_full_range:
  assumes "data L self = (Inr d, s')" and "wf3 d" and "shape d = (n, hh, ww)"
    and "\<lfloor>c0\<rfloor> = 0" and "int n \<le> \<lceil>c1\<rceil>"
    and "\<forall>x. np_mul L x (np_one L) = x"
  shows "moment L None (Some [c0, c1]) 0 None self = (Inr (Some (nansum0 L d)), s') \<and>
         shape2 (nansum0 L d) = (hh, ww) \<and>
         (\<forall>y<hh. \<forall>x<ww. elems2 (nansum0 L d) ! y ! x =
            foldl (np_add L) (np_zero L)
              (map (\<lambda>c. if np_isnan L (elems d ! c ! y ! x) then np_zero L
                         else elems d ! c ! y ! x) [0..<n]))"
proof (intro conjI allI impI)
  have sl: "data_slice_of [c0, c1] = Inr (Slice (Some \<lfloor>c0\<rfloor>) (Some \<lceil>c1\<rceil>))"
    by (simp add: data_slice_of_def int_cslice_def)
  have s3: "slice3 (Slice (Some \<lfloor>c0\<rfloor>) (Some \<lceil>c1\<rceil>)) d = d"
    using assms(2-5) by (rule slice3_full)
  show "moment L None (Some [c0, c1]) 0 None self = (Inr (Some (nansum0 L d)), s')"
    using sl s3 assms(1) multiply_one[OF assms(6), of d]
    by (simp add: moment_def cslice_of_def mask_operand_def then_do_def ret_def lift_def)
  show "shape2 (nansum0 L d) = (hh, ww)"
    using assms(3) by (rule nansum0_shape)
  have len: "length (elems d) = n"
    using assms(2,3) by (simp add: wf3_def)
  show "elems2 (nansum0 L d) ! y ! x =
            foldl (np_add L) (np_zero L)
              (map (\<lambda>c. if np_isnan L (elems d ! c ! y ! x) then np_zero L
                         else elems d ! c ! y ! x) [0..<n])"
    if "y < hh" "x < ww" for y x
    using assms(3) len that by (rule nansum0_elem)
qed


lemma example_nansum0:
  "nansum0 (example_lib 1 1) example_array = \<lparr>shape2 = (1, 2), elems2 = [[Some 7, Some 12]]\<rparr>"
  by (simp add: nansum0_def example_array_def example_lib_def sum_list_np_def nan_to_zero_def
      upt_conv_Cons)

theorem moment0_full_range_witness:
  "data (example_lib 1 1) (example_cube ''VRAD'') = (Inr example_array, example_cube ''VRAD'') \<and>
   wf3 example_array \<and> shape example_array = (3, 1, 2) \<and>
   moment (example_lib 1 1) None (Some [0, 3]) 0 None (example_cube ''VRAD'') =
     (Inr (Some \<lparr>shape2 = (1, 2), elems2 = [[Some 7, Some 12]]\<rparr>), example_cube ''VRAD'')"
proof -
  have d: "data (example_lib 1 1) (example_cube ''VRAD'')
             = (Inr example_array, example_cube ''VRAD'')"
    by (simp add: data_def example_cube_def example_array_def)
  have wf: "wf3 example_array"
    by (simp add: wf3_def example_array_def)
  have sh: "shape example_array = (3, 1, 2)"
    by (simp add: example_array_def)
  have c0: "\<lfloor>0::real\<rfloor> = 0" and c1: "int 3 \<le> \<lceil>3::real\<rceil>"
    by simp_all
  have one: "\<forall>x. np_mul (example_lib 1 1) x (np_one (example_lib 1 1)) = x"
    by (simp add: example_lib_def split: option.splits)
  show ?thesis
    using d wf sh moment0_full_range[OF d wf sh c0 c1 one]
    by (simp add: example_nansum0)
qed


lemma keeps_shape_data: "keeps (cube_shape sh) (data L)"
  by (auto simp add: keeps_def cube_shape_def data_def astype_def Let_def)

lemma keeps_shape_wcs: "keeps (cube_shape sh) (wcs L)"
  by (auto simp add: keeps_def cube_shape_def wcs_def header_def then_do_def split: option.splits)

lemma keeps_shape_axis_units: "keeps (cube_shape sh) (axis_units L)"
  by (auto simp add: keeps_def cube_shape_def axis_units_def wcs_def header_def then_do_def
      split: option.splits)

text \<open>The loaded cube keeps its shape through every call that \<^verbatim>\<open>moment\<close> makes.\<close>

lemma keeps_snd:
  assumes "keeps P m" "P s"
  shows "P (snd (m s))"
  using assms by (simp add: keeps_def)

lemma keeps_shape_frequencies: "keeps (cube_shape sh) (frequencies L)"
proof -
  have fin: "keeps (cube_shape sh) (\<lambda>s. (Inr F, s\<lparr>p_frequencies := Some F\<rparr>))" for F
    by (auto simp add: keeps_def cube_shape_def)
  have sel: "keeps (cube_shape sh)
          (if str_in ''VRAD'' t then ret (doppler_radio r)
           else if str_in ''VOPT'' t then ret (doppler_optical r)
           else if str_in ''FREQ'' t then ret no_equivalency
           else raise (AttributeError (unsupported_msg t)))" for t r
    by (simp add: keeps_ret keeps_raise)
  have "cube_shape sh (snd (frequencies L s))" if P: "cube_shape sh s" for s
  proof (cases "p_frequencies s")
    case (Some f)
    with P show ?thesis by (simp add: frequencies_def)
  next
    case None
    show ?thesis
      unfolding frequencies_def None option.case Let_def spec_wcs_def
    proof (rule keeps_snd[where P = "cube_shape sh"])
      show "cube_shape sh s" by (rule P)
    qed (intro keeps_then_do keeps_shape_wcs keeps_shape_data
          keeps_shape_axis_units keeps_lift sel fin)
  qed
  then show ?thesis by (simp add: keeps_def)
qed

lemma keeps_shape_radio_velocities: "keeps (cube_shape sh) (radio_velocities L)"
proof -
  have fin: "keeps (cube_shape sh) (\<lambda>s. (Inr F, s\<lparr>p_radio_velocities := Some F\<rparr>))" for F
    by (auto simp add: keeps_def cube_shape_def)
  have "cube_shape sh (snd (radio_velocities L s))" if P: "cube_shape sh s" for s
  proof (cases "p_radio_velocities s")
    case (Some f)
    with P show ?thesis by (simp add: radio_velocities_def)
  next
    case None
    show ?thesis
      unfolding radio_velocities_def None option.case Let_def
    proof (rule keeps_snd[where P = "cube_shape sh"])
      show "cube_shape sh s" by (rule P)
    qed (intro keeps_then_do keeps_shape_wcs keeps_shape_frequencies fin)
  qed
  then show ?thesis by (simp add: keeps_def)
qed

lemma keeps_shape_cslice_of: "keeps (cube_shape sh) (cslice_of L vs cs)"
proof (cases vs)
  case None
  then show ?thesis by (simp add: cslice_of_def keeps_ret)
next
  case (Some v)
  have "keeps (cube_shape sh) (then_do (radio_velocities_to_channels L v) (\<lambda>(channels, _).
         then_do (lift (incr_last (map real channels))) (\<lambda>cs. ret (Some cs))))"
    unfolding radio_velocities_to_channels_def
    by (intro keeps_then_do keeps_shape_radio_velocities keeps_lift)
       (auto intro!: keeps_then_do keeps_lift keeps_ret)
  with Some show ?thesis by (simp add: cslice_of_def)
qed

lemma data_again:
  assumes "data L s = (Inr d, s1)"
  shows "data L s1 = (Inr d, s1)"
  using assms
  by (auto simp add: data_def Let_def astype_def split: option.splits if_splits)

lemma data_shape:
  assumes "cube_shape sh s"
  shows "\<exists>d s1. data L s = (Inr d, s1) \<and> shape d = sh \<and> length (elems d) = fst sh"
  using assms
  by (auto simp add: cube_shape_def data_def Let_def astype_def)

lemma bcast_same: "length xs = n \<Longrightarrow> bcast n xs = xs"
  by (simp add: bcast_def)

lemma bcast_single: "bcast n [x] = replicate n x"
  by (cases "n = 1") (simp_all add: bcast_def)

lemma bcast_plane:
  assumes "wf2 m" "shape2 m = (hh, ww)"
  shows "bcast hh (map (bcast ww) (elems2 m)) = elems2 m"
proof -
  have "map (bcast ww) (elems2 m) = elems2 m"
    using assms by (auto simp add: wf2_def list_all_iff bcast_same intro: map_idI)
  moreover have "length (elems2 m) = hh"
    using assms by (simp add: wf2_def)
  ultimately show ?thesis by (simp add: bcast_same)
qed

lemma getslice_replicate:
  "getslice sl (replicate n x) = replicate (length (getslice sl (replicate n x))) x"
  by (cases "slice_bounds sl n") (simp add: getslice_def)

lemma length_getslice:
  "length xs = length ys \<Longrightarrow> length (getslice sl xs) = length (getslice sl ys)"
  by (simp add: getslice_def split: prod.splits)

lemma bdim_one: "bdim k (Suc 0) = Some k"
  by (simp add: bdim_def)

lemma bdim_same: "bdim k k = Some k"
  by (simp add: bdim_def)

lemma multiply_plane_mask:
  assumes "shape d = (n, hh, ww)" "length (elems d) = n" "wf2 m" "shape2 m = (hh, ww)"
    and "shape m3 = (n, hh, ww)" "elems m3 = replicate n (elems2 m)"
  shows "multiply L (slice3 sl d) (Array3 (newaxis m)) =
         multiply L (slice3 sl d) (Array3 (slice3 sl m3))"
proof -
  define k where "k = length (getslice sl (elems d))"
  have k': "length (getslice sl (replicate n (elems2 m))) = k"
    unfolding k_def using assms(2) by (intro length_getslice) simp
  have sd: "shape (slice3 sl d) = (k, hh, ww)"
    using assms(1) by (simp add: slice3_def k_def)
  have sm: "shape (slice3 sl m3) = (k, hh, ww)"
    and em: "elems (slice3 sl m3) = replicate k (elems2 m)"
    using assms(5,6) k' getslice_replicate[of sl n "elems2 m"]
    by (simp_all add: slice3_def)
  have sn: "shape (newaxis m) = (1, hh, ww)" and en: "elems (newaxis m) = [elems2 m]"
    using assms(4) by (simp_all add: newaxis_def)
  have b1: "bcast3 (k, hh, ww) [elems2 m] = replicate k (elems2 m)"
    using bcast_plane[OF assms(3,4)] by (simp add: bcast3_def bcast_single)
  have b2: "bcast3 (k, hh, ww) (replicate k (elems2 m)) = replicate k (elems2 m)"
    using bcast_plane[OF assms(3,4)] by (simp add: bcast3_def bcast_same)
  show ?thesis
    by (simp add: multiply_def mul3_def sd sm sn em en b1 b2 bdim_one bdim_same)
qed

lemma mask_operand_plane:
  assumes "data L s = (Inr d, s1)" "shape d = (n, hh, ww)" "shape2 m = (hh, ww)"
  shows "mask_operand L sl (Some (Mask2 m)) s = (Inr (Array3 (newaxis m)), s1)"
  using assms by (simp add: mask_operand_def then_do_def ret_def)

lemma mask_operand_cube:
  assumes "data L s = (Inr d, s1)" "shape d = (n, hh, ww)" "shape m3 = (n, hh, ww)"
  shows "mask_operand L sl (Some (Mask3 m3)) s = (Inr (Array3 (slice3 sl m3)), s1)"
  using assms data_again[OF assms(1)]
  by (simp add: mask_operand_def then_do_def ret_def)

text \<open>
  C8. For every cube, velocity or channel range and kind, \<^verbatim>\<open>moment\<close> with a mask \<open>m\<close>
  shaped like one spatial plane gives the same outcome (the same map, or the same error,
  and the same object state) as with a mask \<open>m3\<close> of the full cube shape that repeats \<open>m\<close>
  on every channel.
\<close>

theorem moment_plane_mask:
  assumes "p_hdu self = Some h" and "wf3 (hdu_data h)" and "shape (hdu_data h) = (n, hh, ww)"
    and "wf2 m" and "shape2 m = (hh, ww)"
    and "shape m3 = (n, hh, ww)" and "elems m3 = replicate n (elems2 m)"
  shows "moment L vslice cslice kind (Some (Mask2 m)) self =
         moment L vslice cslice kind (Some (Mask3 m3)) self"
proof -
  have cube: "cube_shape (n, hh, ww) self"
    using assms(1-3) by (simp add: cube_shape_def wf3_def)
  obtain r s0 where cs: "cslice_of L vslice cslice self = (r, s0)"
    by (cases "cslice_of L vslice cslice self")
  have cube0: "cube_shape (n, hh, ww) s0"
    by (rule keepsD[OF keeps_shape_cslice_of cube cs])
  obtain d s1 where d: "data L s0 = (Inr d, s1)" and sh: "shape d = (n, hh, ww)"
    and len: "length (elems d) = n"
    using data_shape[OF cube0, of L] by auto
  note d1 = data_again[OF d]
  have body: "then_do (mask_operand L sl (Some (Mask2 m))) (\<lambda>mo.
         then_do (data L) (\<lambda>d.
         let s_data = slice3 sl d in
         if kind = 0 then
           then_do (lift (multiply L s_data mo)) (\<lambda>p. ret (Some (nansum0 L p)))
         else if kind = 1 then raise (AttributeError ''velocities'')
         else ret None)) s0 =
       then_do (mask_operand L sl (Some (Mask3 m3))) (\<lambda>mo.
         then_do (data L) (\<lambda>d.
         let s_data = slice3 sl d in
         if kind = 0 then
           then_do (lift (multiply L s_data mo)) (\<lambda>p. ret (Some (nansum0 L p)))
         else if kind = 1 then raise (AttributeError ''velocities'')
         else ret None)) s0" for sl
    using mask_operand_plane[OF d sh assms(5), of sl] mask_operand_cube[OF d sh assms(6), of sl]
      d1 multiply_plane_mask[OF sh len assms(4-7), of L sl]
    by (simp add: then_do_def)
  show ?thesis
  proof (cases r)
    case (Inl e)
    with cs show ?thesis by (simp add: moment_def then_do_def)
  next
    case (Inr c)
    show ?thesis
    proof (cases c)
      case None
      with cs Inr show ?thesis by (simp add: moment_def then_do_def)
    next
      case (Some c')
      show ?thesis
      proof (cases "data_slice_of c'")
        case e: (Inl e)
        with cs Inr Some show ?thesis by (simp add: moment_def then_do_def lift_def)
      next
        case sl: (Inr sl)
        with cs Inr Some body[of sl] show ?thesis
          by (simp add: moment_def then_do_def lift_def)
      qed
    qed
  qed
qed

theorem moment_plane_mask_witness:
  "p_hdu (example_cube ''VRAD'') =
     Some \<lparr>is_image = True, hdu_data = example_array, hdu_header = example_header ''VRAD''\<rparr> \<and>
   wf3 example_array \<and> shape example_array = (3, 1, 2) \<and>
   wf2 example_plane \<and> shape2 example_plane = (1, 2) \<and>
   shape (expand_mask 3 example_plane) = (3, 1, 2) \<and>
   elems (expand_mask 3 example_plane) = replicate 3 (elems2 example_plane) \<and>
   moment (example_lib 1 1) None (Some [1, 3]) 0
      (Some (Mask3 (expand_mask 3 example_plane))) (example_cube ''VRAD'') =
     (Inr (Some \<lparr>shape2 = (1, 2), elems2 = [[Some 6, Some 0]]\<rparr>), example_cube ''VRAD'')"
proof -
  define h where "h = \<lparr>is_image = True, hdu_data = example_array,
                        hdu_header = example_header ''VRAD''\<rparr>"
  have a: "p_hdu (example_cube ''VRAD'') = Some h"
    by (simp add: example_cube_def h_def)
  have b: "wf3 (hdu_data h)" and c: "shape (hdu_data h) = (3, 1, 2)"
    by (simp_all add: wf3_def example_array_def h_def)
  have d: "wf2 example_plane" and e: "shape2 example_plane = (1, 2)"
    by (simp_all add: wf2_def example_plane_def)
  have f: "shape (expand_mask 3 example_plane) = (3, 1, 2)"
    and g: "elems (expand_mask 3 example_plane) = replicate 3 (elems2 example_plane)"
    by (simp_all add: expand_mask_def example_plane_def)
  have "moment (example_lib 1 1) None (Some [1, 3]) 0 (Some (Mask2 example_plane))
          (example_cube ''VRAD'') =
        (Inr (Some \<lparr>shape2 = (1, 2), elems2 = [[Some 6, Some 0]]\<rparr>), example_cube ''VRAD'')"
    by (simp add: moment_def cslice_of_def then_do_def ret_def lift_def data_slice_of_def
        int_cslice_def mask_operand_def data_def example_cube_def example_array_def
        example_plane_def slice3_def getslice_def slice_bounds_def norm_index_def
        multiply_def mul3_def newaxis_def bdim_def bcast3_def bcast_def nansum0_def
        sum_list_np_def nan_to_zero_def example_lib_def upt_conv_Cons)
  with a b c d e f g
    moment_plane_mask[OF a b c d e f g, of "example_lib 1 1" None "Some [1, 3]" 0]
  show ?thesis
    by (simp add: h_def)
qed

section \<open>The channel lookup\<close>

text \<open>
  On a view that is ascending, the binary search returns the leftmost insertion point:
  every element before it is smaller than the key, every element from it on is at least
  the key.
\<close>

lemma binsearch_left_spec:
  assumes "sorted_view a sorter n" and "lo \<le> hi" and "hi \<le> n"
    and "\<forall>i<lo. view a sorter i < key"
    and "\<forall>i. hi \<le> i \<and> i < n \<longrightarrow> key \<le> view a sorter i"
  shows "lo \<le> binsearch_left a sorter key lo hi \<and> binsearch_left a sorter key lo hi \<le> hi \<and>
         (\<forall>i<binsearch_left a sorter key lo hi. view a sorter i < key) \<and>
         (\<forall>i. binsearch_left a sorter key lo hi \<le> i \<and> i < n \<longrightarrow> key \<le> view a sorter i)"
  using assms
proof (induction a sorter key lo hi rule: binsearch_left.induct)
  case (1 a sorter key lo hi)
  show ?case
  proof (cases "lo < hi")
    case False
    then have "binsearch_left a sorter key lo hi = lo"
      by (subst binsearch_left.simps) simp
    with False "1.prems" show ?thesis by simp
  next
    case True
    define mid where "mid = lo + (hi - lo) div 2"
    have mid: "lo \<le> mid" "mid < hi" using True by (simp_all add: mid_def)
    show ?thesis
    proof (cases "view a sorter mid < key")
      case less: True
      have below: "\<forall>i<mid + 1. view a sorter i < key"
      proof (intro allI impI)
        fix i assume "i < mid + 1"
        then have "i \<le> mid" by simp
        moreover have "mid < n" using mid "1.prems"(3) by simp
        ultimately have "view a sorter i \<le> view a sorter mid"
          using "1.prems"(1) by (simp add: sorted_view_def)
        with less show "view a sorter i < key" by simp
      qed
      have step: "binsearch_left a sorter key lo hi = binsearch_left a sorter key (mid + 1) hi"
        using True less by (subst binsearch_left.simps) (simp add: mid_def Let_def)
      have "mid + 1 \<le> hi" using mid by simp
      from "1.IH"(1)[OF True mid_def less "1.prems"(1) this "1.prems"(3) below "1.prems"(5)]
      show ?thesis using mid unfolding step by auto
    next
      case geq: False
      have above: "\<forall>i. mid \<le> i \<and> i < n \<longrightarrow> key \<le> view a sorter i"
      proof (intro allI impI)
        fix i assume "mid \<le> i \<and> i < n"
        then have "view a sorter mid \<le> view a sorter i"
          using "1.prems"(1) by (simp add: sorted_view_def)
        with geq show "key \<le> view a sorter i" by simp
      qed
      have step: "binsearch_left a sorter key lo hi = binsearch_left a sorter key lo mid"
        using True geq by (subst binsearch_left.simps) (simp add: mid_def Let_def)
      have "mid \<le> n" using mid "1.prems"(3) by simp
      from "1.IH"(2)[OF True mid_def geq "1.prems"(1) mid(1) this "1.prems"(4) above]
      show ?thesis using mid unfolding step by auto
    qed
  qed
qed

lemma searchsorted_spec:
  assumes "sorted_view a sorter (length a)"
  shows "binsearch_left a sorter key 0 (length a) \<le> length a"
    and "\<And>i. i < binsearch_left a sorter key 0 (length a) \<Longrightarrow> view a sorter i < key"
    and "\<And>i. binsearch_left a sorter key 0 (length a) \<le> i \<Longrightarrow> i < length a
           \<Longrightarrow> key \<le> view a sorter i"
  using binsearch_left_spec[OF assms(1), of 0 "length a" key] by auto

lemma searchsorted_mono:
  assumes "sorted_view a sorter (length a)" and "v0 \<le> v1"
  shows "binsearch_left a sorter v0 0 (length a) \<le> binsearch_left a sorter v1 0 (length a)"
proof (rule ccontr)
  assume "\<not> ?thesis"
  then have lt: "binsearch_left a sorter v1 0 (length a) < binsearch_left a sorter v0 0 (length a)"
    by simp
  note s0 = searchsorted_spec[OF assms(1), where key = v0]
  note s1 = searchsorted_spec[OF assms(1), where key = v1]
  have "view a sorter (binsearch_left a sorter v1 0 (length a)) < v0"
    using s0(2) lt by simp
  moreover have "v1 \<le> view a sorter (binsearch_left a sorter v1 0 (length a))"
    using s1(3)[of "binsearch_left a sorter v1 0 (length a)"] lt s0(1) by simp
  ultimately show False using assms(2) by simp
qed


lemma channels_of_nonempty:
  assumes "rv \<noteq> []"
  shows "channels_of rv sv =
     (case take_indices rv (searchsorted rv sv
              (if hd rv > last rv then Some (rev [0..<length rv]) else None)) of
        Inl e \<Rightarrow> Inl e
      | Inr tv \<Rightarrow> Inr (searchsorted rv sv
              (if hd rv > last rv then Some (rev [0..<length rv]) else None), tv))"
proof -
  have pos: "Suc 0 \<le> length rv"
    using assms by (cases rv) simp_all
  have "py_index rv 0 = Inr (hd rv)"
    using assms by (simp add: py_index_def hd_conv_nth)
  moreover have "nat (int (length rv) + - 1) = length rv - 1"
    by simp
  then have "py_index rv (- 1) = Inr (last rv)"
    using assms pos by (simp add: py_index_def last_conv_nth)
  ultimately show ?thesis
    by (simp add: channels_of_def Let_def)
qed

lemma channels_of_empty: "channels_of [] sv = Inl IndexError"
  by (simp add: channels_of_def py_index_def)

lemma view_reversed:
  assumes "i < length a"
  shows "view a (Some (rev [0..<length a])) i = rev a ! i"
  using assms by (simp add: view_def rev_nth)

lemma sorted_view_ascending:
  assumes "sorted a"
  shows "sorted_view a None (length a)"
  using assms by (simp add: sorted_view_def view_def sorted_nth_mono)

lemma sorted_view_descending:
  assumes "sorted (rev a)"
  shows "sorted_view a (Some (rev [0..<length a])) (length a)"
  unfolding sorted_view_def
proof (intro allI impI)
  fix i j assume ij: "i \<le> j \<and> j < length a"
  then have "rev a ! i \<le> rev a ! j"
    using assms by (simp add: sorted_nth_mono)
  with ij show "view a (Some (rev [0..<length a])) i \<le> view a (Some (rev [0..<length a])) j"
    by (simp add: view_reversed)
qed

lemma monotonic_view:
  assumes "sorted rv \<or> sorted (rev rv)" and "rv \<noteq> []"
  shows "sorted_view rv (if hd rv > last rv then Some (rev [0..<length rv]) else None)
           (length rv)"
proof (cases "hd rv > last rv")
  case True
  have "\<not> sorted rv"
  proof
    assume "sorted rv"
    then have "rv ! 0 \<le> rv ! (length rv - 1)"
      using assms(2) by (intro sorted_nth_mono) simp_all
    with True assms(2) show False by (simp add: hd_conv_nth last_conv_nth)
  qed
  with assms(1) have "sorted (rev rv)" by simp
  with True show ?thesis by (simp add: sorted_view_descending)
next
  case False
  show ?thesis
  proof (cases "sorted rv")
    case True
    with False show ?thesis by (simp add: sorted_view_ascending)
  next
    case nots: False
    with assms(1) have desc: "sorted (rev rv)" by simp
    have le: "rv ! i \<le> rv ! j" if "i \<le> j" "j < length rv" for i j
    proof -
      have ri: "rev rv ! (length rv - 1 - k) = rv ! k" if "k < length rv" for k
        using that by (simp add: rev_nth)
      have "rev rv ! (length rv - 1 - i) \<le> rev rv ! (length rv - 1 - 0)"
        using that by (intro sorted_nth_mono[OF desc]) simp_all
      then have a: "rv ! i \<le> rv ! 0"
        using that assms(2) ri[of i] ri[of 0] by simp
      have "rev rv ! (length rv - 1 - (length rv - 1)) \<le> rev rv ! (length rv - 1 - j)"
        using that by (intro sorted_nth_mono[OF desc]) simp_all
      then have b: "rv ! (length rv - 1) \<le> rv ! j"
        using that ri[of j] ri[of "length rv - 1"] by simp
      have "rv ! 0 \<le> rv ! (length rv - 1)"
        using False assms(2) by (simp add: hd_conv_nth last_conv_nth)
      with a b show ?thesis by simp
    qed
    with False show ?thesis by (simp add: sorted_view_def view_def)
  qed
qed


lemma take_indices_ok:
  "take_indices a idx = Inr tv \<longleftrightarrow> (list_all (\<lambda>i. i < length a) idx \<and> tv = map (\<lambda>i. a ! i) idx)"
  by (auto simp add: take_indices_def)

lemma getslice_range:
  assumes "c0 \<le> c1" and "c1 < length xs"
  shows "getslice (Slice (Some (int c0)) (Some (int c1 + 1))) xs = map (\<lambda>c. xs ! c) [c0..<Suc c1]"
proof -
  have "nat (int c1 + 1) = Suc c1" by simp
  then have "getslice (Slice (Some (int c0)) (Some (int c1 + 1))) xs
        = take (Suc c1 - c0) (drop c0 xs)"
    using assms by (simp add: getslice_def slice_bounds_def norm_index_def min_def)
  also have "\<dots> = map (\<lambda>c. xs ! c) [c0..<Suc c1]"
  proof (rule nth_equalityI)
    show "length (take (Suc c1 - c0) (drop c0 xs)) = length (map (\<lambda>c. xs ! c) [c0..<Suc c1])"
      using assms by (simp del: upt_Suc)
  next
    fix i assume "i < length (take (Suc c1 - c0) (drop c0 xs))"
    then have i: "i < Suc c1 - c0" by simp
    then have "take (Suc c1 - c0) (drop c0 xs) ! i = xs ! (c0 + i)"
      using assms by simp
    moreover have "map (\<lambda>c. xs ! c) [c0..<Suc c1] ! i = xs ! (c0 + i)"
      using i by (simp del: upt_Suc)
    ultimately show "take (Suc c1 - c0) (drop c0 xs) ! i = map (\<lambda>c. xs ! c) [c0..<Suc c1] ! i"
      by simp
  qed
  finally show ?thesis .
qed

text \<open>
  The channel pair of a velocity range. When the lookup of \<open>(v0, v1)\<close> with \<open>v0 \<le> v1\<close>
  returns on a monotonic axis, its channels are \<open>c0 \<le> c1\<close>, the pair is widened to
  \<open>(c0, c1 + 1)\<close>, and flooring and ceiling give the slice \<open>c0 : c1 + 1\<close>, which selects the
  positions \<open>c0, ..., c1\<close> of a sequence.
\<close>

lemma cslice_of_ordered_range:
  assumes "radio_velocities L self = (Inr rv, s')"
    and "sorted rv \<or> sorted (rev rv)"
    and "v0 \<le> v1"
    and "fst (radio_velocities_to_channels L [v0, v1] self) = Inr (chs, tv)"
  shows "\<exists>c0 c1. chs = [c0, c1] \<and> c0 \<le> c1 \<and> c1 < length rv \<and> tv = [rv ! c0, rv ! c1] \<and>
           cslice_of L (Some [v0, v1]) cslice self = (Inr (Some [real c0, real c1 + 1]), s') \<and>
           data_slice_of [real c0, real c1 + 1] =
             Inr (Slice (Some (int c0)) (Some (int c1 + 1))) \<and>
           (\<forall>xs :: 'b list. c1 < length xs \<longrightarrow>
              getslice (Slice (Some (int c0)) (Some (int c1 + 1))) xs =
                map (\<lambda>c. xs ! c) [c0..<Suc c1])"
proof -
  define sorter where "sorter = (if hd rv > last rv then Some (rev [0..<length rv]) else None)"
  define c0 where "c0 = binsearch_left rv sorter v0 0 (length rv)"
  define c1 where "c1 = binsearch_left rv sorter v1 0 (length rv)"
  have look: "radio_velocities_to_channels L [v0, v1] self = (channels_of rv [v0, v1], s')"
    using assms(1) by (simp add: radio_velocities_to_channels_def then_do_def lift_def)
  with assms(4) have ch: "channels_of rv [v0, v1] = Inr (chs, tv)"
    by simp
  then have ne: "rv \<noteq> []"
    by (auto simp add: channels_of_empty)
  have ss: "searchsorted rv [v0, v1] sorter = [c0, c1]"
    by (simp add: searchsorted_def c0_def c1_def)
  from ch have "take_indices rv [c0, c1] = Inr tv" and chs: "chs = [c0, c1]"
    unfolding channels_of_nonempty[OF ne] sorter_def[symmetric] ss
    by (auto split: sum.splits)
  then have lt: "c0 < length rv" "c1 < length rv" and tv: "tv = [rv ! c0, rv ! c1]"
    by (simp_all add: take_indices_ok)
  have "sorted_view rv sorter (length rv)"
    unfolding sorter_def using assms(2) ne by (rule monotonic_view)
  then have le: "c0 \<le> c1"
    unfolding c0_def c1_def using assms(3) by (rule searchsorted_mono)
  have cs: "cslice_of L (Some [v0, v1]) cslice self = (Inr (Some [real c0, real c1 + 1]), s')"
    using look ch chs
    by (simp add: cslice_of_def then_do_def lift_def ret_def incr_last_def)
  have "\<lceil>real c1 + 1\<rceil> = int c1 + 1"
    by (simp add: ceiling_eq_iff)
  then have ds: "data_slice_of [real c0, real c1 + 1] =
             Inr (Slice (Some (int c0)) (Some (int c1 + 1)))"
    by (simp add: data_slice_of_def int_cslice_def)
  have gs: "\<forall>xs :: 'b list. c1 < length xs \<longrightarrow>
              getslice (Slice (Some (int c0)) (Some (int c1 + 1))) xs =
                map (\<lambda>c. xs ! c) [c0..<Suc c1]"
    using le by (simp add: getslice_range)
  from chs le lt tv cs ds gs show ?thesis by blast
qed


text \<open>
  The axis is cached by its first read: a second read returns the same axis and changes
  nothing, so the several reads of \<^verbatim>\<open>self.radio_velocities\<close> in the lookup see one axis.
\<close>

lemma radio_velocities_again:
  assumes "radio_velocities L self = (Inr rv, s')"
  shows "radio_velocities L s' = (Inr rv, s')"
proof (cases "p_radio_velocities self")
  case (Some v)
  with assms show ?thesis by (auto simp add: radio_velocities_def)
next
  case None
  with assms have "p_radio_velocities s' = Some rv"
    by (auto simp add: radio_velocities_def then_do_def Let_def split: sum.splits prod.splits)
  then show ?thesis by (simp add: radio_velocities_def)
qed

lemma channels_method:
  assumes "radio_velocities L self = (Inr rv, s')"
  shows "radio_velocities_to_channels L v self = (channels_of rv v, s')"
  using assms by (simp add: radio_velocities_to_channels_def then_do_def lift_def)

lemma example_axis:
  "fst (radio_velocities (example_lib crval cdelt) (example_cube ''VRAD''))
     = Inr [crval, crval + cdelt, crval + cdelt * 2]"
  by (simp add: radio_velocities_def frequencies_def wcs_def header_def data_def axis_units_def
      spec_wcs_def then_do_def lift_def ret_def py_index_def example_cube_def example_lib_def
      example_header_def example_array_def Let_def upt_conv_Cons)


lemma sorted_not_reversed:
  assumes "sorted rv" and "rv \<noteq> []"
  shows "\<not> hd rv > last rv"
proof -
  have "rv ! 0 \<le> rv ! (length rv - 1)"
    using assms by (intro sorted_nth_mono) simp_all
  with assms(2) show ?thesis by (simp add: hd_conv_nth last_conv_nth)
qed

lemma channels_of_ascending:
  assumes "sorted rv" and "rv \<noteq> []"
  shows "channels_of rv [v] =
     (if binsearch_left rv None v 0 (length rv) < length rv
      then Inr ([binsearch_left rv None v 0 (length rv)],
                [rv ! binsearch_left rv None v 0 (length rv)])
      else Inl IndexError)"
  using sorted_not_reversed[OF assms]
  by (simp add: channels_of_nonempty[OF assms(2)] searchsorted_def take_indices_def)

text \<open>
  The lookup on an ascending axis: a velocity at or below the first axis value gives
  channel 0; the axis value of channel \<open>k\<close> gives channel \<open>k\<close> when the axis is strictly
  ascending; the velocity actually stored at the channel is returned with it.
\<close>

lemma channels_of_ascending_low:
  assumes "sorted rv" and "rv \<noteq> []" and "v \<le> hd rv"
  shows "channels_of rv [v] = Inr ([0], [hd rv])"
proof -
  note sv = sorted_view_ascending[OF assms(1)]
  have "binsearch_left rv None v 0 (length rv) = 0"
  proof (rule ccontr)
    assume "binsearch_left rv None v 0 (length rv) \<noteq> 0"
    then have "view rv None 0 < v"
      by (intro searchsorted_spec(2)[OF sv]) simp
    with assms(2,3) show False by (simp add: view_def hd_conv_nth)
  qed
  with assms(2) show ?thesis
    by (simp add: channels_of_ascending[OF assms(1,2)] hd_conv_nth)
qed

lemma channels_of_ascending_exact:
  assumes "sorted_wrt (<) rv" and "k < length rv"
  shows "channels_of rv [rv ! k] = Inr ([k], [rv ! k])"
proof -
  have srt: "sorted rv"
    using assms(1) by (simp add: strict_sorted_iff)
  have ne: "rv \<noteq> []" using assms(2) by auto
  note sv = sorted_view_ascending[OF srt]
  define j where "j = binsearch_left rv None (rv ! k) 0 (length rv)"
  have "\<not> k < j"
  proof
    assume "k < j"
    then have "view rv None k < rv ! k"
      unfolding j_def by (rule searchsorted_spec(2)[OF sv])
    then show False by (simp add: view_def)
  qed
  moreover have "\<not> j < k"
  proof
    assume jk: "j < k"
    then have "rv ! k \<le> view rv None j"
      unfolding j_def using assms(2) by (intro searchsorted_spec(3)[OF sv]) simp_all
    moreover have "rv ! j < rv ! k"
      using assms jk by (simp add: sorted_wrt_nth_less)
    ultimately show False by (simp add: view_def)
  qed
  ultimately have "j = k" by simp
  with assms(2) show ?thesis
    by (simp add: channels_of_ascending[OF srt ne] j_def)
qed

text \<open>
  A velocity above the last value of an ascending axis: the insertion point is the length
  of the axis, and reading the axis at it raises \<^verbatim>\<open>IndexError\<close>.
\<close>

lemma channels_of_ascending_high:
  assumes "sorted rv" and "rv \<noteq> []" and "last rv < v"
  shows "channels_of rv [v] = Inl IndexError"
proof -
  note sv = sorted_view_ascending[OF assms(1)]
  define j where "j = binsearch_left rv None v 0 (length rv)"
  have "\<not> j < length rv"
  proof
    assume lt: "j < length rv"
    then have "v \<le> view rv None j"
      unfolding j_def by (intro searchsorted_spec(3)[OF sv]) simp_all
    moreover have "rv ! j \<le> rv ! (length rv - 1)"
      using assms(1) lt by (intro sorted_nth_mono) simp_all
    ultimately show False
      using assms(2,3) by (simp add: view_def last_conv_nth)
  qed
  then show ?thesis
    by (simp add: channels_of_ascending[OF assms(1,2)] j_def)
qed

text \<open>
  The lookup on a strictly descending axis: the axis value of channel \<open>k\<close> gives the
  mirrored channel \<open>N - 1 - k\<close>, the insertion point in the reversed view, and the velocity
  stored at that mirrored channel.
\<close>

lemma channels_of_descending_exact:
  assumes "sorted_wrt (>) rv" and "k < length rv"
  shows "channels_of rv [rv ! k] =
           Inr ([length rv - 1 - k], [rv ! (length rv - 1 - k)])"
proof -
  define n where "n = length rv"
  have ne: "rv \<noteq> []" using assms(2) by auto
  have gt: "rv ! i > rv ! j" if "i < j" "j < n" for i j
    using sorted_wrt_nth_less[OF assms(1), of i j] that by (simp add: n_def)
  define sorter where "sorter = (if hd rv > last rv then Some (rev [0..<length rv]) else None)"
  define j where "j = binsearch_left rv sorter (rv ! k) 0 (length rv)"
  have vw: "view rv sorter i = rv ! (n - 1 - i)" if "i < n" for i
  proof (cases "hd rv > last rv")
    case True
    with that show ?thesis
      by (simp add: sorter_def view_def rev_nth n_def)
  next
    case False
    have "n = 1"
    proof (rule ccontr)
      assume "n \<noteq> 1"
      moreover have "0 < n" using ne by (simp add: n_def)
      ultimately have "0 < n - 1" "n - 1 < n" by simp_all
      then have "rv ! 0 > rv ! (n - 1)" by (rule gt)
      with False ne show False by (simp add: hd_conv_nth last_conv_nth n_def)
    qed
    with that False show ?thesis
      by (simp add: sorter_def view_def)
  qed
  have sv: "sorted_view rv sorter (length rv)"
    unfolding sorted_view_def
  proof (intro allI impI)
    fix i i' assume a: "i \<le> i' \<and> i' < length rv"
    show "view rv sorter i \<le> view rv sorter i'"
    proof (cases "i = i'")
      case True
      then show ?thesis by simp
    next
      case False
      with a have "n - 1 - i' < n - 1 - i" "n - 1 - i < n" unfolding n_def by linarith+
      then have "rv ! (n - 1 - i') > rv ! (n - 1 - i)" by (rule gt)
      with a show ?thesis by (simp add: vw n_def)
    qed
  qed
  define m where "m = n - 1 - k"
  have mk: "m < n" "n - 1 - m = k" using assms(2) by (simp_all add: m_def n_def)
  have jn: "j \<le> n"
    unfolding j_def n_def by (rule searchsorted_spec(1)[OF sv])
  have "\<not> m < j"
  proof
    assume "m < j"
    then have "view rv sorter m < rv ! k"
      unfolding j_def by (rule searchsorted_spec(2)[OF sv])
    with mk show False by (simp add: vw)
  qed
  moreover have "\<not> j < m"
  proof
    assume jm: "j < m"
    then have "rv ! k \<le> view rv sorter j"
      unfolding j_def using mk by (intro searchsorted_spec(3)[OF sv]) (simp_all add: n_def)
    moreover have "k < n - 1 - j" "n - 1 - j < n" using jm mk unfolding m_def by linarith+
    then have "rv ! k > rv ! (n - 1 - j)" by (rule gt)
    ultimately show False using jm mk by (simp add: vw)
  qed
  ultimately have "j = m" by simp
  with mk show ?thesis
    unfolding channels_of_nonempty[OF ne] sorter_def[symmetric]
    by (simp add: searchsorted_def take_indices_def j_def[symmetric] m_def n_def)
qed


lemma example_lookup:
  "fst (radio_velocities_to_channels (example_lib crval cdelt) v (example_cube ''VRAD''))
     = channels_of [crval, crval + cdelt, crval + cdelt * 2] v"
proof -
  obtain r s' where rs: "radio_velocities (example_lib crval cdelt) (example_cube ''VRAD'') = (r, s')"
    by (cases "radio_velocities (example_lib crval cdelt) (example_cube ''VRAD'')")
  with example_axis[of crval cdelt] have "r = Inr [crval, crval + cdelt, crval + cdelt * 2]"
    by simp
  with rs show ?thesis by (simp add: channels_method)
qed

text \<open>
  C1. The claim is that on a descending axis the index found in the reversed view is
  mapped back to the original indexing, so that the same velocity looked up on an axis and
  on its reversal gives channels with the same stored velocity. On the descending axis
  \<open>3, 2, 1\<close> the velocity 1 gives channel 0 (the insertion point in the reversed view,
  not mapped back), where 3 is stored; on the ascending axis \<open>1, 2, 3\<close> it gives channel
  0, where 1 is stored.
\<close>

theorem reversed_axis_lookup_example:
  "fst (radio_velocities_to_channels (example_lib 3 (- 1)) [1] (example_cube ''VRAD''))
     = Inr ([0], [3]) \<and>
   fst (radio_velocities_to_channels (example_lib 1 1) [1] (example_cube ''VRAD''))
     = Inr ([0], [1])"
  by (simp add: example_lookup channels_of_def py_index_def searchsorted_def take_indices_def
      binsearch_left.simps view_def Let_def upt_conv_Cons)

text \<open>
  C2. The claim is that a velocity at or above the last value of an ascending axis of
  length \<open>N\<close> gives channel \<open>N - 1\<close>. On the axis \<open>1, 2, 3\<close> the velocity 4 gives the
  insertion point 3, and the read of the axis at 3 raises \<^verbatim>\<open>IndexError\<close>.
\<close>

theorem lookup_above_axis_example:
  "fst (radio_velocities_to_channels (example_lib 1 1) [4] (example_cube ''VRAD''))
     = Inl IndexError"
  by (simp add: example_lookup channels_of_def py_index_def searchsorted_def take_indices_def
      binsearch_left.simps view_def Let_def)

text \<open>
  C7. The claim is that the slice \<^verbatim>\<open>moment\<close> builds from a velocity range covers the
  channels of both endpoint velocities. On the descending axis \<open>3, 2, 1\<close> the range
  \<open>(1, 2)\<close> is looked up as the channels 0 and 1 (where 3 and 2 are stored), widened to
  \<open>(0, 2)\<close>, and the slice \<open>0 : 2\<close> selects the channels of the velocities 3 and 2: the
  channel 2, where the endpoint velocity 1 is stored, is left out. The map returned for
  \<^verbatim>\<open>kind = 0\<close> is the sum of the channels 0 and 1, not that of the channels 1 and 2, which
  the channel range \<open>(1, 3)\<close> gives. On the ascending axis \<open>1, 2, 3\<close> the range \<open>(2, 4)\<close>
  selects nothing: the call raises \<^verbatim>\<open>IndexError\<close>.
\<close>

theorem moment_velocity_range_example:
  "fst (radio_velocities (example_lib 3 (- 1)) (example_cube ''VRAD'')) = Inr [3, 2, 1] \<and>
   fst (radio_velocities_to_channels (example_lib 3 (- 1)) [1, 2] (example_cube ''VRAD''))
     = Inr ([0, 1], [3, 2]) \<and>
   fst (cslice_of (example_lib 3 (- 1)) (Some [1, 2]) None (example_cube ''VRAD''))
     = Inr (Some [0, 2]) \<and>
   data_slice_of [0, 2] = Inr (Slice (Some 0) (Some 2)) \<and>
   getslice (Slice (Some 0) (Some 2)) [3, 2, 1 :: real] = [3, 2] \<and>
   fst (moment (example_lib 3 (- 1)) (Some [1, 2]) None 0 None (example_cube ''VRAD''))
     = Inr (Some \<lparr>shape2 = (1, 2), elems2 = [[Some 3, Some 5]]\<rparr>) \<and>
   fst (moment (example_lib 3 (- 1)) None (Some [1, 3]) 0 None (example_cube ''VRAD''))
     = Inr (Some \<lparr>shape2 = (1, 2), elems2 = [[Some 6, Some 12]]\<rparr>) \<and>
   fst (moment (example_lib 1 1) (Some [2, 4]) None 0 None (example_cube ''VRAD''))
     = Inl IndexError"
  by (simp add: moment_def cslice_of_def radio_velocities_to_channels_def
      radio_velocities_def frequencies_def wcs_def header_def data_def axis_units_def
      spec_wcs_def then_do_def lift_def ret_def py_index_def example_cube_def example_lib_def
      example_header_def example_array_def Let_def upt_conv_Cons
      channels_of_def searchsorted_def take_indices_def binsearch_left.simps view_def
      incr_last_def data_slice_of_def int_cslice_def mask_operand_def slice3_def getslice_def
      slice_bounds_def norm_index_def multiply_def nansum0_def sum_list_np_def nan_to_zero_def)

end
